theory Spec2Isabelle
  imports Complex_Main
begin

section \<open>Go-Back-N ARQ: shared modelling conventions\<close>

text \<open>
  The development embeds the protocol logic of \<^verbatim>\<open>gbn_server.py\<close>, \<^verbatim>\<open>gbn_client.py\<close> and
  the metric computation of \<^verbatim>\<open>gbn_demo.py\<close>.

  \<^item> Python integers are \<open>int\<close>; the floats that are only compared or divided
    (\<^verbatim>\<open>loss_probability\<close>, \<^verbatim>\<open>random.random()\<close>, elapsed time, the derived rates) are the
    reals they denote, so rounding of float division is not modelled.
  \<^item> A \<^verbatim>\<open>stats\<close> dictionary has a fixed set of string keys and integer values; it is a
    function from the key to the counter.
  \<^item> \<^verbatim>\<open>log_event(event_type, seq_num, message)\<close> appends one entry to \<^verbatim>\<open>log_entries\<close>.
    An entry is the triple of the event type, the optional sequence number and the
    constant part of the message; the wall-clock timestamp, the interpolated parts of
    the message, the console and the log file are left out.
  \<^item> What the program cannot decide itself is an explicit argument: the value drawn by
    \<^verbatim>\<open>random.random()\<close> and whether \<^verbatim>\<open>socket.sendto\<close> returns or raises.
  \<^item> The UDP socket is the list of datagrams that \<^verbatim>\<open>sendto\<close> accepted, oldest first.
  \<^item> Every method is one atomic step; the interleaving of the Python threads inside a
    method body is not modelled.
\<close>

type_synonym 'k stats_dict = "string \<Rightarrow> 'k"

text \<open>\<^verbatim>\<open>self.stats[key] += 1\<close>\<close>

definition incr :: "int stats_dict \<Rightarrow> string \<Rightarrow> int stats_dict" where
  "incr st key = st(key := st key + 1)"

text \<open>One attempted transmission: the random draw and the behaviour of the socket.\<close>

record chance =
  draw :: real
  sendto_ok :: bool

text \<open>Python's \<^verbatim>\<open>range(a, b)\<close> over integers.\<close>

definition py_range :: "int \<Rightarrow> int \<Rightarrow> int list" where
  "py_range a b = [a..b - 1]"


section \<open>The receiver: \<^verbatim>\<open>GBNServer\<close>\<close>

text \<open>
  The value of \<^verbatim>\<open>json.loads(packet_data.decode('utf-8'))\<close> as far as \<^verbatim>\<open>process_packet\<close>
  looks at it. The library calls are not re-implemented: a datagram is given by what they
  do with it, an exception or a value. A JSON object is the dictionary it decodes to.
  The values of its fields are JSON integers or JSON strings; floats, booleans,
  \<^verbatim>\<open>null\<close>, arrays and nested objects as field values are outside the model.
\<close>

datatype jv = JInt int | JStr string

datatype datagram =
    NotUtf8                    \<comment> \<open>\<^verbatim>\<open>decode\<close> raises \<^verbatim>\<open>UnicodeDecodeError\<close>\<close>
  | NotJson                    \<comment> \<open>\<^verbatim>\<open>json.loads\<close> raises \<^verbatim>\<open>JSONDecodeError\<close>\<close>
  | NotDict                    \<comment> \<open>valid JSON, but not an object: subscripting raises \<^verbatim>\<open>TypeError\<close>\<close>
  | Dict "string \<rightharpoonup> jv"       \<comment> \<open>a JSON object\<close>

text \<open>
  \<^verbatim>\<open>GBNClient.create_packet\<close>, seen from the receiving end: the datagram decodes to a
  dictionary with \<^verbatim>\<open>seq_num\<close> and \<^verbatim>\<open>data\<close> (its \<^verbatim>\<open>timestamp\<close>, a float that the receiver
  never reads, is left out).
\<close>

definition create_packet :: "int \<Rightarrow> string \<Rightarrow> datagram" where
  "create_packet seq_num data = Dict [''seq_num'' \<mapsto> JInt seq_num, ''data'' \<mapsto> JStr data]"

datatype exn = UnicodeDecodeError | JSONDecodeError | KeyError string | TypeError

type_synonym server_log_entry = "string \<times> jv option \<times> string"

record GBNServer =
  expected_seq_num :: int
  last_ack_sent :: int
  loss_probability :: real
  stats :: "int stats_dict"
  log_entries :: "server_log_entry list"
  received_messages :: "(jv \<times> jv) list"   \<comment> \<open>\<^verbatim>\<open>seq_num\<close> and \<^verbatim>\<open>data\<close> of each accepted packet\<close>
  socket_out :: "int list"                \<comment> \<open>\<^verbatim>\<open>ack_num\<close> of each ACK datagram handed to the socket\<close>

text \<open>\<^verbatim>\<open>__init__\<close> with \<^verbatim>\<open>reset_state\<close>: the state of a new server.\<close>

definition server_init :: "real \<Rightarrow> GBNServer" where
  "server_init p =
     \<lparr>expected_seq_num = 0, last_ack_sent = - 1, loss_probability = p,
      stats = (\<lambda>_. 0), log_entries = [], received_messages = [], socket_out = []\<rparr>"

definition server_log_event :: "GBNServer \<Rightarrow> string \<Rightarrow> jv option \<Rightarrow> string \<Rightarrow> GBNServer" where
  "server_log_event s event_type seq_num message =
     s\<lparr>log_entries := log_entries s @ [(event_type, seq_num, message)]\<rparr>"

definition simulate_ack_loss :: "GBNServer \<Rightarrow> real \<Rightarrow> bool \<times> GBNServer" where
  "simulate_ack_loss s r =
     (if loss_probability s > 0 then
        (let lost = (r < loss_probability s)
         in (lost, if lost then s\<lparr>stats := incr (stats s) ''acks_lost''\<rparr> else s))
      else (False, s))"

definition send_ack :: "GBNServer \<Rightarrow> int \<Rightarrow> chance \<Rightarrow> GBNServer" where
  "send_ack s ack_num c =
     (case simulate_ack_loss s (draw c) of
        (True, s1) \<Rightarrow> server_log_event s1 ''ACK_LOSS'' (Some (JInt ack_num)) ''ACK simulato come perso''
      | (False, s1) \<Rightarrow>
          if sendto_ok c then
            server_log_event
              (s1\<lparr>socket_out := socket_out s1 @ [ack_num],
                  stats := incr (stats s1) ''acks_sent'',
                  last_ack_sent := ack_num\<rparr>)
              ''ACK_SENT'' (Some (JInt ack_num)) ''ACK inviato''
          else server_log_event s1 ''ERROR'' (Some (JInt ack_num)) ''Errore invio ACK'')"

text \<open>
  The body of the \<^verbatim>\<open>try\<close> block of \<^verbatim>\<open>process_packet\<close>, in three definitions: the
  branch for the expected sequence number, the \<^verbatim>\<open>else\<close> branch, and the statements that
  lead to them. An exception does not undo the assignments made before it, so the result
  is the exception, if any, together with the state reached.
\<close>

definition accept_in_order :: "GBNServer \<Rightarrow> int \<Rightarrow> jv \<Rightarrow> chance \<Rightarrow> exn option \<times> GBNServer" where
  "accept_in_order s seq_num data c =
     (let s1 = s\<lparr>stats := incr (stats s) ''packets_in_order'',
                 received_messages := received_messages s @ [(JInt seq_num, data)]\<rparr>;
          s2 = server_log_event s1 ''ACCEPT'' (Some (JInt seq_num)) ''Pacchetto accettato (in ordine)'';
          s3 = s2\<lparr>expected_seq_num := expected_seq_num s2 + 1\<rparr>
      in (None, send_ack s3 seq_num c))"

text \<open>
  In the \<^verbatim>\<open>else\<close> branch \<^verbatim>\<open>seq_num < self.expected_seq_num\<close> raises \<^verbatim>\<open>TypeError\<close> when
  \<^verbatim>\<open>seq_num\<close> is a string.
\<close>

definition reject_out_of_order :: "GBNServer \<Rightarrow> jv \<Rightarrow> chance \<Rightarrow> exn option \<times> GBNServer" where
  "reject_out_of_order s seq_num c =
     (let s1 = s\<lparr>stats := incr (stats s) ''packets_out_of_order''\<rparr>
      in case seq_num of
           JStr _ \<Rightarrow> (Some TypeError, s1)
         | JInt n \<Rightarrow>
             (let s2 = (if n < expected_seq_num s1
                        then server_log_event s1 ''DUPLICATE'' (Some seq_num) ''Pacchetto duplicato''
                        else server_log_event s1 ''OUT_OF_ORDER'' (Some seq_num) ''Pacchetto fuori ordine'')
              in if last_ack_sent s2 \<ge> 0 then
                   (let s3 = send_ack s2 (last_ack_sent s2) c
                    in (None, server_log_event s3 ''DUP_ACK'' (Some (JInt (last_ack_sent s3)))
                                ''ACK duplicato per pacchetto fuori ordine''))
                 else (None, s2)))"

text \<open>
  \<^verbatim>\<open>seq_num == self.expected_seq_num\<close> is false when \<^verbatim>\<open>seq_num\<close> is a string; when it is
  true, \<^verbatim>\<open>seq_num\<close> is the integer \<^verbatim>\<open>expected_seq_num\<close>, and the first branch is given
  that integer.
\<close>

definition process_packet_try :: "GBNServer \<Rightarrow> datagram \<Rightarrow> chance \<Rightarrow> exn option \<times> GBNServer" where
  "process_packet_try s packet_data c =
     (case packet_data of
        NotUtf8 \<Rightarrow> (Some UnicodeDecodeError, s)
      | NotJson \<Rightarrow> (Some JSONDecodeError, s)
      | NotDict \<Rightarrow> (Some TypeError, s)
      | Dict packet \<Rightarrow>
          (case packet ''seq_num'' of
             None \<Rightarrow> (Some (KeyError ''seq_num''), s)
           | Some seq_num \<Rightarrow>
          (case packet ''data'' of
             None \<Rightarrow> (Some (KeyError ''data''), s)
           | Some data \<Rightarrow>
              (let s1 = server_log_event (s\<lparr>stats := incr (stats s) ''packets_received''\<rparr>)
                          ''RECV'' (Some seq_num) ''Ricevuto''
               in if seq_num = JInt (expected_seq_num s1)
                  then accept_in_order s1 (expected_seq_num s1) data c
                  else reject_out_of_order s1 seq_num c))))"

text \<open>
  \<^verbatim>\<open>process_packet\<close>: the \<^verbatim>\<open>try\<close> block with its three handlers. The first component of
  the result is the exception that reaches the caller.
\<close>

definition process_packet :: "GBNServer \<Rightarrow> datagram \<Rightarrow> chance \<Rightarrow> exn option \<times> GBNServer" where
  "process_packet s packet_data c =
     (case process_packet_try s packet_data c of
        (None, s') \<Rightarrow> (None, s')
      | (Some JSONDecodeError, s') \<Rightarrow>
          (None, server_log_event s' ''ERROR'' None ''Pacchetto con formato JSON non valido'')
      | (Some (KeyError k), s') \<Rightarrow>
          (None, server_log_event s' ''ERROR'' None ''Campo mancante nel pacchetto'')
      | (Some e, s') \<Rightarrow>
          (None, server_log_event s' ''ERROR'' None ''Errore processing pacchetto''))"


section \<open>The sender: \<^verbatim>\<open>GBNClient\<close>\<close>

type_synonym log_entry = "string \<times> int option \<times> string"

text \<open>
  \<^verbatim>\<open>self.timers\<close> maps a sequence number to a \<^verbatim>\<open>threading.Timer\<close> object. An object is
  identified by its creation number: \<open>timers_created\<close> counts the \<^verbatim>\<open>Timer\<close> objects
  constructed so far and \<open>cancelled\<close> holds those whose \<^verbatim>\<open>cancel()\<close> has been called.
  \<open>socket_out\<close> lists \<^verbatim>\<open>seq_num\<close> and \<^verbatim>\<open>data\<close> of the packets handed to the socket.
\<close>

record GBNClient =
  window_size :: int
  base :: int
  next_seq_num :: int
  window :: "int \<rightharpoonup> string"
  timers :: "int \<rightharpoonup> nat"
  timers_created :: nat
  cancelled :: "nat set"
  loss_probability :: real
  stats :: "int stats_dict"
  log_entries :: "log_entry list"
  running :: bool
  socket_out :: "(int \<times> string) list"

text \<open>\<^verbatim>\<open>__init__\<close>: the state of a new client.\<close>

definition client_init :: "int \<Rightarrow> real \<Rightarrow> GBNClient" where
  "client_init ws p =
     \<lparr>window_size = ws, base = 0, next_seq_num = 0, window = Map.empty, timers = Map.empty,
      timers_created = 0, cancelled = {}, loss_probability = p, stats = (\<lambda>_. 0),
      log_entries = [], running = False, socket_out = []\<rparr>"

definition log_event :: "GBNClient \<Rightarrow> string \<Rightarrow> int option \<Rightarrow> string \<Rightarrow> GBNClient" where
  "log_event s event_type seq_num message =
     s\<lparr>log_entries := log_entries s @ [(event_type, seq_num, message)]\<rparr>"

definition simulate_packet_loss :: "GBNClient \<Rightarrow> real \<Rightarrow> bool \<times> GBNClient" where
  "simulate_packet_loss s r =
     (if loss_probability s > 0 then
        (let lost = (r < loss_probability s)
         in (lost, if lost then s\<lparr>stats := incr (stats s) ''packets_lost''\<rparr> else s))
      else (False, s))"

definition send_packet :: "GBNClient \<Rightarrow> int \<Rightarrow> string \<Rightarrow> bool \<Rightarrow> chance \<Rightarrow> GBNClient" where
  "send_packet s seq_num data is_retransmission c =
     (case simulate_packet_loss s (draw c) of
        (True, s1) \<Rightarrow> log_event s1 ''LOSS'' (Some seq_num) ''Pacchetto simulato come perso''
      | (False, s1) \<Rightarrow>
          if sendto_ok c then
            (let s2 = s1\<lparr>socket_out := socket_out s1 @ [(seq_num, data)],
                         stats := incr (stats s1) ''packets_sent''\<rparr>
             in if is_retransmission then
                  log_event (s2\<lparr>stats := incr (stats s2) ''retransmissions''\<rparr>)
                    ''RETX'' (Some seq_num) ''Ritrasmissione pacchetto''
                else log_event s2 ''SEND'' (Some seq_num) ''Invio pacchetto'')
          else log_event s1 ''ERROR'' (Some seq_num) ''Errore invio'')"

definition start_timer :: "GBNClient \<Rightarrow> int \<Rightarrow> GBNClient" where
  "start_timer s seq_num =
     (let s1 = (case timers s seq_num of
                  Some t \<Rightarrow> s\<lparr>cancelled := insert t (cancelled s)\<rparr>
                | None \<Rightarrow> s);
          timer = timers_created s1;
          s2 = s1\<lparr>timers_created := Suc timer, timers := (timers s1)(seq_num \<mapsto> timer)\<rparr>
      in log_event s2 ''TIMER_START'' (Some seq_num) ''Timer avviato'')"

definition stop_timer :: "GBNClient \<Rightarrow> int \<Rightarrow> GBNClient" where
  "stop_timer s seq_num =
     (case timers s seq_num of
        Some t \<Rightarrow>
          log_event (s\<lparr>cancelled := insert t (cancelled s), timers := (timers s)(seq_num := None)\<rparr>)
            ''TIMER_STOP'' (Some seq_num) ''Timer fermato''
      | None \<Rightarrow> s)"

text \<open>
  The loop of \<^verbatim>\<open>timeout_handler\<close> over \<^verbatim>\<open>range(self.base, self.next_seq_num)\<close>. Each index
  makes at most one call of \<^verbatim>\<open>send_packet\<close>, whose draw and socket behaviour are \<open>ch i\<close>.
\<close>

fun retransmit_from :: "GBNClient \<Rightarrow> int list \<Rightarrow> (int \<Rightarrow> chance) \<Rightarrow> GBNClient" where
  "retransmit_from s [] ch = s"
| "retransmit_from s (i # rest) ch =
     retransmit_from
       (case window s i of
          Some data \<Rightarrow> start_timer (send_packet s i data True (ch i)) i
        | None \<Rightarrow> s)
       rest ch"

definition timeout_handler :: "GBNClient \<Rightarrow> int \<Rightarrow> (int \<Rightarrow> chance) \<Rightarrow> GBNClient" where
  "timeout_handler s seq_num ch =
     (if \<not> running s then s
      else retransmit_from
             (log_event s ''TIMEOUT'' (Some seq_num) ''Timeout scaduto - Avvio Go-Back-N'')
             (py_range (base s) (next_seq_num s)) ch)"

text \<open>The loop of \<^verbatim>\<open>receive_acks\<close> over \<^verbatim>\<open>range(self.base, ack_num + 1)\<close>.\<close>

fun release_acked :: "GBNClient \<Rightarrow> int list \<Rightarrow> GBNClient" where
  "release_acked s [] = s"
| "release_acked s (seq # rest) =
     release_acked
       (let s1 = stop_timer s seq
        in if seq \<in> dom (window s1) then s1\<lparr>window := (window s1)(seq := None)\<rparr> else s1)
       rest"

text \<open>
  One iteration of the loop of \<^verbatim>\<open>receive_acks\<close> in which \<^verbatim>\<open>recvfrom\<close> returned a datagram
  that decodes to an ACK with the integer \<^verbatim>\<open>ack_num\<close>.
\<close>

definition receive_ack :: "GBNClient \<Rightarrow> int \<Rightarrow> GBNClient" where
  "receive_ack s ack_num =
     (let s1 = log_event (s\<lparr>stats := incr (stats s) ''acks_received''\<rparr>)
                 ''ACK_RECV'' (Some ack_num) ''ACK ricevuto'';
          s2 = (if ack_num \<ge> base s1 then
                  (let s3 = release_acked s1 (py_range (base s1) (ack_num + 1));
                       s4 = s3\<lparr>base := ack_num + 1\<rparr>
                   in log_event s4 ''WINDOW_UPDATE'' None ''Base finestra aggiornata'')
                else s1)
      in s2)"

text \<open>
  \<^verbatim>\<open>send_data\<close> in three pieces: its first statements, one iteration of the inner loop
  that fills the window (entered when \<open>window_has_room\<close> holds and a message \<open>data\<close>
  remains), and the statements after the outer loop.
\<close>

definition send_data_begin :: "GBNClient \<Rightarrow> GBNClient" where
  "send_data_begin s = log_event (s\<lparr>running := True\<rparr>) ''SESSION_START'' None ''Inizio trasmissione''"

definition window_has_room :: "GBNClient \<Rightarrow> bool" where
  "window_has_room s = (int (card (dom (window s))) < window_size s)"

definition send_data_fill :: "GBNClient \<Rightarrow> string \<Rightarrow> chance \<Rightarrow> GBNClient" where
  "send_data_fill s data c =
     (let s1 = s\<lparr>window := (window s)(next_seq_num s \<mapsto> data)\<rparr>;
          s2 = send_packet s1 (next_seq_num s1) data False c;
          s3 = start_timer s2 (next_seq_num s2);
          s4 = log_event s3 ''WINDOW_ADD'' (Some (next_seq_num s3)) ''Aggiunto alla finestra''
      in s4\<lparr>next_seq_num := next_seq_num s4 + 1\<rparr>)"

definition send_data_end :: "GBNClient \<Rightarrow> GBNClient" where
  "send_data_end s =
     log_event (s\<lparr>running := False, cancelled := cancelled s \<union> ran (timers s), timers := Map.empty\<rparr>)
       ''SESSION_END'' None ''Trasmissione completata''"

text \<open>\<^verbatim>\<open>close\<close>\<close>

definition close :: "GBNClient \<Rightarrow> GBNClient" where
  "close s = s\<lparr>running := False\<rparr>"

text \<open>
  The sender states that calls of the methods can reach from a new client, each call or
  loop iteration taken as one step: the start of \<^verbatim>\<open>send_data\<close>, an iteration of its inner
  loop (entered only when the window has room), an iteration of the ACK listener for any
  \<^verbatim>\<open>ack_num\<close>, a timer callback for any sequence number, the end of \<^verbatim>\<open>send_data\<close> (its outer
  loop is left only with an empty window) and \<^verbatim>\<open>close\<close>. The parameters are the
  configured window size and loss probability.
\<close>

inductive reachable :: "int \<Rightarrow> real \<Rightarrow> GBNClient \<Rightarrow> bool" for ws :: int and p :: real where
  reach_init: "reachable ws p (client_init ws p)"
| reach_begin: "reachable ws p s \<Longrightarrow> reachable ws p (send_data_begin s)"
| reach_fill: "reachable ws p s \<Longrightarrow> window_has_room s \<Longrightarrow> reachable ws p (send_data_fill s data c)"
| reach_ack: "reachable ws p s \<Longrightarrow> reachable ws p (receive_ack s ack_num)"
| reach_timeout: "reachable ws p s \<Longrightarrow> reachable ws p (timeout_handler s seq_num ch)"
| reach_end: "reachable ws p s \<Longrightarrow> dom (window s) = {} \<Longrightarrow> reachable ws p (send_data_end s)"
| reach_close: "reachable ws p s \<Longrightarrow> reachable ws p (close s)"

text \<open>
  The same, with the ACK listener restricted to acknowledgements of sequence numbers
  that have been assigned: \<^verbatim>\<open>ack_num < next_seq_num\<close>.
\<close>

inductive reachable_sent :: "int \<Rightarrow> real \<Rightarrow> GBNClient \<Rightarrow> bool" for ws :: int and p :: real where
  sent_init: "reachable_sent ws p (client_init ws p)"
| sent_begin: "reachable_sent ws p s \<Longrightarrow> reachable_sent ws p (send_data_begin s)"
| sent_fill: "reachable_sent ws p s \<Longrightarrow> window_has_room s \<Longrightarrow>
     reachable_sent ws p (send_data_fill s data c)"
| sent_ack: "reachable_sent ws p s \<Longrightarrow> ack_num < next_seq_num s \<Longrightarrow>
     reachable_sent ws p (receive_ack s ack_num)"
| sent_timeout: "reachable_sent ws p s \<Longrightarrow> reachable_sent ws p (timeout_handler s seq_num ch)"
| sent_end: "reachable_sent ws p s \<Longrightarrow> dom (window s) = {} \<Longrightarrow> reachable_sent ws p (send_data_end s)"
| sent_close: "reachable_sent ws p s \<Longrightarrow> reachable_sent ws p (close s)"


section \<open>Derived metrics\<close>

text \<open>
  The dictionary returned by \<^verbatim>\<open>ProfessionalGBNAnalyzer.calculate_advanced_metrics\<close>, one
  field for each key. Python's \<^verbatim>\<open>/\<close> on integers is true division.
\<close>

record metrics =
  packets_sent :: int
  acks_received :: int
  retransmissions :: int
  packets_lost :: int
  messages_count :: int
  transmission_time :: real
  effective_loss_rate :: real
  retransmission_rate :: real
  protocol_efficiency :: real
  throughput :: real
  overhead_ratio :: real
  timeout_count :: int
  avg_retransmissions_per_packet :: real
  goodput :: real

definition calculate_advanced_metrics :: "GBNClient \<Rightarrow> real \<Rightarrow> int \<Rightarrow> metrics" where
  "calculate_advanced_metrics client transmission_time' messages_count' =
     (let stats' = stats client;
          packets_sent' = stats' ''packets_sent'';
          acks_received' = stats' ''acks_received'';
          retransmissions' = stats' ''retransmissions'';
          packets_lost' = stats' ''packets_lost'';
          total_transmissions = packets_sent' + packets_lost';
          effective_loss_rate' =
            (if total_transmissions > 0
             then real_of_int packets_lost' / real_of_int total_transmissions * 100 else 0);
          retransmission_rate' =
            (if messages_count' > 0
             then real_of_int retransmissions' / real_of_int messages_count' * 100 else 0);
          protocol_efficiency' =
            (if packets_sent' > 0
             then real_of_int acks_received' / real_of_int packets_sent' * 100 else 0);
          throughput' =
            (if transmission_time' > 0 then real_of_int messages_count' / transmission_time' else 0);
          overhead_ratio' =
            (if messages_count' > 0
             then real_of_int retransmissions' / real_of_int messages_count' else 0);
          timeout_count' = retransmissions'
      in \<lparr>packets_sent = packets_sent', acks_received = acks_received',
          retransmissions = retransmissions', packets_lost = packets_lost',
          messages_count = messages_count', transmission_time = transmission_time',
          effective_loss_rate = effective_loss_rate', retransmission_rate = retransmission_rate',
          protocol_efficiency = protocol_efficiency', throughput = throughput',
          overhead_ratio = overhead_ratio', timeout_count = timeout_count',
          avg_retransmissions_per_packet = overhead_ratio',
          goodput = (if transmission_time' > 0
                     then real_of_int acks_received' / transmission_time' else 0)\<rparr>)"

text \<open>
  The two rates of \<^verbatim>\<open>GBNClient.print_statistics\<close>, \<^verbatim>\<open>loss_rate\<close> and \<^verbatim>\<open>retx_rate\<close>. They are
  computed, and printed, only when \<^verbatim>\<open>packets_sent\<close> is positive.
\<close>

definition print_statistics_rates :: "GBNClient \<Rightarrow> (real \<times> real) option" where
  "print_statistics_rates s =
     (if stats s ''packets_sent'' > 0 then
        (let loss_rate = real_of_int (stats s ''packets_lost'')
                           / real_of_int (stats s ''packets_sent'' + stats s ''packets_lost'') * 100;
             retx_rate = real_of_int (stats s ''retransmissions'')
                           / real_of_int (stats s ''packets_sent'') * 100
         in Some (loss_rate, retx_rate))
      else None)"


section \<open>Notions used to state the properties\<close>

text \<open>
  The sequence numbers of the window that \<^verbatim>\<open>timeout_handler\<close> visits: those of
  \<^verbatim>\<open>range(base, next_seq_num)\<close> that are keys of \<^verbatim>\<open>window\<close>, in increasing order.
\<close>

definition outstanding :: "GBNClient \<Rightarrow> int list" where
  "outstanding s = filter (\<lambda>i. i \<in> dom (window s)) (py_range (base s) (next_seq_num s))"

text \<open>
  A transmission with loss probability \<open>p\<close> and chance \<open>c\<close> reaches the socket when the
  loss simulation keeps the packet and \<^verbatim>\<open>sendto\<close> returns.
\<close>

definition passes :: "real \<Rightarrow> chance \<Rightarrow> bool" where
  "passes p c = (\<not> (p > 0 \<and> draw c < p) \<and> sendto_ok c)"

text \<open>
  Every call of \<^verbatim>\<open>send_packet\<close> logs exactly one entry: \<^verbatim>\<open>LOSS\<close>, \<^verbatim>\<open>SEND\<close>, \<^verbatim>\<open>RETX\<close> or the
  \<^verbatim>\<open>ERROR\<close> of a failed \<^verbatim>\<open>sendto\<close>. \<open>send_attempts\<close> reads the sequence numbers of these
  calls off a piece of the log.
\<close>

definition is_send_attempt :: "log_entry \<Rightarrow> bool" where
  "is_send_attempt e =
     (fst e = ''LOSS'' \<or> fst e = ''SEND'' \<or> fst e = ''RETX''
      \<or> (fst e = ''ERROR'' \<and> snd (snd e) = ''Errore invio''))"

definition send_attempts :: "log_entry list \<Rightarrow> int option list" where
  "send_attempts es = map (\<lambda>e. fst (snd e)) (filter is_send_attempt es)"

text \<open>
  Likewise every call of \<^verbatim>\<open>send_ack\<close> logs exactly one of \<^verbatim>\<open>ACK_LOSS\<close>, \<^verbatim>\<open>ACK_SENT\<close> and
  the \<^verbatim>\<open>ERROR\<close> of a failed \<^verbatim>\<open>sendto\<close>.
\<close>

definition is_ack_attempt :: "server_log_entry \<Rightarrow> bool" where
  "is_ack_attempt e =
     (fst e = ''ACK_LOSS'' \<or> fst e = ''ACK_SENT''
      \<or> (fst e = ''ERROR'' \<and> snd (snd e) = ''Errore invio ACK''))"

definition ack_attempts :: "server_log_entry list \<Rightarrow> jv option list" where
  "ack_attempts es = map (\<lambda>e. fst (snd e)) (filter is_ack_attempt es)"

text \<open>The entries that a step from \<open>old\<close> to \<open>new\<close> appended to a log.\<close>

definition appended :: "'a list \<Rightarrow> 'a list \<Rightarrow> 'a list" where
  "appended old new = drop (length old) new"





definition well_formed :: "datagram \<Rightarrow> int \<Rightarrow> bool" where
  "well_formed d n =
     (case d of
        Dict packet \<Rightarrow> packet ''seq_num'' = Some (JInt n)
                        \<and> (case packet ''data'' of Some (JStr _) \<Rightarrow> True | _ \<Rightarrow> False)
      | _ \<Rightarrow> False)"

text \<open>
  Every \<^verbatim>\<open>Timer\<close> object that the sender holds, or has cancelled, has been constructed:
  its creation number lies below \<open>timers_created\<close>.
\<close>

definition timers_allocated :: "GBNClient \<Rightarrow> bool" where
  "timers_allocated s =
     ((\<forall>i t. timers s i = Some t \<longrightarrow> t < timers_created s)
      \<and> (\<forall>t. t \<in> cancelled s \<longrightarrow> t < timers_created s))"


section \<open>Example runs\<close>

text \<open>A transmission that the loss simulation keeps and the socket accepts.\<close>

definition chance_ok :: chance where
  "chance_ok = \<lparr>draw = 0, sendto_ok = True\<rparr>"

definition all_ok :: "int \<Rightarrow> chance" where
  "all_ok i = chance_ok"



text \<open>A receiver without simulated loss that has accepted packet 0 and sent its ACK.\<close>

definition accepted_first :: GBNServer where
  "accepted_first = snd (process_packet (server_init 0) (create_packet 0 ''a'') chance_ok)"

text \<open>
  A sender with window size 3 and no simulated loss that has sent the packets 0 and 1;
  the same after the ACK for packet 0; and the same after \<^verbatim>\<open>close\<close> instead.
\<close>

definition two_in_flight :: GBNClient where
  "two_in_flight =
     send_data_fill (send_data_fill (send_data_begin (client_init 3 0)) ''a'' chance_ok) ''b'' chance_ok"

definition first_acked :: GBNClient where
  "first_acked = receive_ack two_in_flight 0"

definition closed_in_flight :: GBNClient where
  "closed_in_flight = close two_in_flight"

text \<open>
  The sender with packets 0 and 1 in flight receives an ACK for packet 4, which it has not
  sent (for instance the duplicate ACK of a receiver that still expects packet 5).
\<close>

definition ack_beyond :: GBNClient where
  "ack_beyond = receive_ack two_in_flight 4"

text \<open>A transmission on which \<^verbatim>\<open>sendto\<close> raises.\<close>

definition chance_fail :: chance where
  "chance_fail = \<lparr>draw = 0, sendto_ok = False\<rparr>"

text \<open>
  The sender with packets 0 and 1 in flight after a timeout that retransmits both and the
  ACK for packet 0.
\<close>

definition retransmitted_acked :: GBNClient where
  "retransmitted_acked = receive_ack (timeout_handler two_in_flight 0 all_ok) 0"


section \<open>Properties of the receiver\<close>

text \<open>Selectors of the state after \<^verbatim>\<open>log_event\<close> and \<^verbatim>\<open>send_ack\<close>.\<close>

lemma incr_apply: "incr st k k' = (if k' = k then st k + 1 else st k')"
  by (simp add: incr_def)

lemma server_log_event_sel:
  "expected_seq_num (server_log_event s a b m) = expected_seq_num s"
  "last_ack_sent (server_log_event s a b m) = last_ack_sent s"
  "GBNServer.loss_probability (server_log_event s a b m) = GBNServer.loss_probability s"
  "GBNServer.stats (server_log_event s a b m) = GBNServer.stats s"
  "received_messages (server_log_event s a b m) = received_messages s"
  "GBNServer.socket_out (server_log_event s a b m) = GBNServer.socket_out s"
  "GBNServer.log_entries (server_log_event s a b m) = GBNServer.log_entries s @ [(a, b, m)]"
  by (simp_all add: server_log_event_def)


lemma send_ack_frame:
  "expected_seq_num (send_ack s a c) = expected_seq_num s"
  "received_messages (send_ack s a c) = received_messages s"
  by (simp_all add: send_ack_def simulate_ack_loss_def server_log_event_sel Let_def split: prod.splits if_splits)

lemma send_ack_socket:
  "GBNServer.socket_out (send_ack s a c) = GBNServer.socket_out s @ (if passes (GBNServer.loss_probability s) c then [a] else [])"
  by (simp add: send_ack_def simulate_ack_loss_def server_log_event_sel Let_def passes_def split: prod.splits if_splits)

lemma send_ack_last:
  "last_ack_sent (send_ack s a c) = (if passes (GBNServer.loss_probability s) c then a else last_ack_sent s)"
  by (simp add: send_ack_def simulate_ack_loss_def server_log_event_sel Let_def passes_def split: prod.splits if_splits)

lemma send_ack_log_eq:
  "GBNServer.log_entries (send_ack s a c) =
     GBNServer.log_entries s
     @ [if 0 < GBNServer.loss_probability s \<and> draw c < GBNServer.loss_probability s
        then (''ACK_LOSS'', Some (JInt a), ''ACK simulato come perso'')
        else if sendto_ok c then (''ACK_SENT'', Some (JInt a), ''ACK inviato'')
        else (''ERROR'', Some (JInt a), ''Errore invio ACK'')]"
  by (simp add: send_ack_def simulate_ack_loss_def server_log_event_sel Let_def)

text \<open>Reading ACK attempts off a piece of the log.\<close>

lemma appended_append: "appended xs (xs @ ys) = ys"
  by (simp add: appended_def)

lemma ack_attempts_append: "ack_attempts (xs @ ys) = ack_attempts xs @ ack_attempts ys"
  by (simp add: ack_attempts_def)

lemma ack_attempts_Cons2: "ack_attempts (x # y # ys) = ack_attempts [x] @ ack_attempts (y # ys)"
  by (simp add: ack_attempts_def)

lemma ack_attempts_other:
  "ack_attempts [] = []"
  "ack_attempts [(''RECV'', x, m)] = []"
  "ack_attempts [(''DUPLICATE'', x, m)] = []"
  "ack_attempts [(''OUT_OF_ORDER'', x, m)] = []"
  "ack_attempts [(''DUP_ACK'', x, m)] = []"
  by (simp_all add: ack_attempts_def is_ack_attempt_def)

lemma ack_attempts_own:
  "ack_attempts [(''ACK_LOSS'', x, m)] = [x]"
  "ack_attempts [(''ACK_SENT'', x, m)] = [x]"
  "ack_attempts [(''ERROR'', x, ''Errore invio ACK'')] = [x]"
  by (simp_all add: ack_attempts_def is_ack_attempt_def)

text \<open>The \<^verbatim>\<open>else\<close> branch, and how a well-formed packet that is not the expected one gets there.\<close>

lemma well_formed_obtain:
  assumes "well_formed d n"
  obtains packet x where "d = Dict packet" and "packet ''seq_num'' = Some (JInt n)"
    and "packet ''data'' = Some (JStr x)"
  using assms
  by (cases d) (auto simp add: well_formed_def split: option.splits jv.splits)

lemma reject_fst: "fst (reject_out_of_order s (JInt n) c) = None"
  by (simp add: reject_out_of_order_def Let_def)

lemma reject_frame:
  "expected_seq_num (snd (reject_out_of_order s (JInt n) c)) = expected_seq_num s"
  "received_messages (snd (reject_out_of_order s (JInt n) c)) = received_messages s"
  by (simp_all add: reject_out_of_order_def Let_def server_log_event_sel send_ack_frame)

lemma reject_log:
  "GBNServer.log_entries (snd (reject_out_of_order s (JInt n) c)) =
     (GBNServer.log_entries s
      @ [if n < expected_seq_num s then (''DUPLICATE'', Some (JInt n), ''Pacchetto duplicato'')
         else (''OUT_OF_ORDER'', Some (JInt n), ''Pacchetto fuori ordine'')])
     @ (if 0 \<le> last_ack_sent s
        then [if 0 < GBNServer.loss_probability s \<and> draw c < GBNServer.loss_probability s
              then (''ACK_LOSS'', Some (JInt (last_ack_sent s)), ''ACK simulato come perso'')
              else if sendto_ok c then (''ACK_SENT'', Some (JInt (last_ack_sent s)), ''ACK inviato'')
              else (''ERROR'', Some (JInt (last_ack_sent s)), ''Errore invio ACK'')]
             @ [(''DUP_ACK'', Some (JInt (last_ack_sent s)), ''ACK duplicato per pacchetto fuori ordine'')]
        else [])"
  by (simp add: reject_out_of_order_def Let_def send_ack_log_eq send_ack_last server_log_event_sel)

lemma reject_socket:
  "GBNServer.socket_out (snd (reject_out_of_order s (JInt n) c))
     = GBNServer.socket_out s
       @ (if 0 \<le> last_ack_sent s \<and> passes (GBNServer.loss_probability s) c then [last_ack_sent s] else [])"
  by (simp add: reject_out_of_order_def Let_def server_log_event_sel send_ack_socket)

lemma reject_log_prefix:
  "take (length (GBNServer.log_entries s)) (GBNServer.log_entries (snd (reject_out_of_order s (JInt n) c)))
     = GBNServer.log_entries s"
  unfolding reject_log by simp

lemma process_packet_reject:
  assumes "well_formed d n" and "n \<noteq> expected_seq_num s"
  shows "process_packet s d c =
           reject_out_of_order
             (server_log_event (s\<lparr>GBNServer.stats := incr (GBNServer.stats s) ''packets_received''\<rparr>)
                ''RECV'' (Some (JInt n)) ''Ricevuto'')
             (JInt n) c"
proof -
  from assms(1) obtain packet x where d: "d = Dict packet" "packet ''seq_num'' = Some (JInt n)"
    "packet ''data'' = Some (JStr x)"
    by (rule well_formed_obtain)
  let ?s1 = "server_log_event (s\<lparr>GBNServer.stats := incr (GBNServer.stats s) ''packets_received''\<rparr>)
                ''RECV'' (Some (JInt n)) ''Ricevuto''"
  have t: "process_packet_try s d c = reject_out_of_order ?s1 (JInt n) c"
    using assms(2) by (simp add: d process_packet_try_def Let_def server_log_event_sel)
  obtain r where r: "reject_out_of_order ?s1 (JInt n) c = (None, r)"
    using reject_fst [of ?s1 n c] by (cases "reject_out_of_order ?s1 (JInt n) c") simp
  show ?thesis
    unfolding process_packet_def t r by simp
qed







text \<open>The receiver after it has accepted packet 0 and sent its ACK.\<close>

lemma accepted_first_eq:
  "accepted_first
   = \<lparr>expected_seq_num = 1, last_ack_sent = 0, loss_probability = 0,
      stats = (\<lambda>_. 0)(''packets_received'' := 1, ''packets_in_order'' := 1, ''acks_sent'' := 1),
      log_entries = [(''RECV'', Some (JInt 0), ''Ricevuto''),
                     (''ACCEPT'', Some (JInt 0), ''Pacchetto accettato (in ordine)''),
                     (''ACK_SENT'', Some (JInt 0), ''ACK inviato'')],
      received_messages = [(JInt 0, JStr ''a'')], socket_out = [0]\<rparr>"
  by (simp add: accepted_first_def create_packet_def chance_ok_def process_packet_def process_packet_try_def
      accept_in_order_def send_ack_def
      simulate_ack_loss_def server_log_event_def server_init_def incr_def Let_def)

text \<open>
  Claim C5. A well-formed packet whose \<^verbatim>\<open>seq_num\<close> differs from \<^verbatim>\<open>expected_seq_num\<close> leaves
  the list of received messages and \<^verbatim>\<open>expected_seq_num\<close> as they were, in every receiver
  state and for every outcome of the ACK transmission.
\<close>

theorem reject_keeps_log_and_cursor:
  assumes "well_formed d n" and "n \<noteq> expected_seq_num s"
  shows "received_messages (snd (process_packet s d c)) = received_messages s
       \<and> expected_seq_num (snd (process_packet s d c)) = expected_seq_num s"
  by (simp add: process_packet_reject [OF assms] reject_frame server_log_event_sel)

text \<open>
  A new receiver that gets packet 3 first.
\<close>

theorem reject_keeps_log_and_cursor_witness:
  "well_formed (create_packet 3 ''x'') 3
   \<and> 3 \<noteq> expected_seq_num (server_init 0)
   \<and> received_messages (snd (process_packet (server_init 0) (create_packet 3 ''x'') chance_ok)) = []
   \<and> expected_seq_num (snd (process_packet (server_init 0) (create_packet 3 ''x'') chance_ok)) = 0"
  using reject_keeps_log_and_cursor [of "create_packet 3 ''x''" 3 "server_init 0" chance_ok]
  by (simp add: well_formed_def create_packet_def server_init_def)

text \<open>
  Claim C6. When a well-formed packet is rejected, the entries this call appends to the
  log contain exactly one ACK attempt, for \<^verbatim>\<open>last_ack_sent\<close>, if \<^verbatim>\<open>last_ack_sent\<close> is set (not
  negative), and none otherwise. The ACK reaches the socket when it passes the loss
  simulation and \<^verbatim>\<open>sendto\<close> returns. The log is only extended.
\<close>

theorem reject_resends_last_ack_once:
  assumes "well_formed d n" and "n \<noteq> expected_seq_num s"
  shows "ack_attempts (appended (GBNServer.log_entries s) (GBNServer.log_entries (snd (process_packet s d c))))
           = (if 0 \<le> last_ack_sent s then [Some (JInt (last_ack_sent s))] else [])
       \<and> GBNServer.socket_out (snd (process_packet s d c))
           = GBNServer.socket_out s
             @ (if 0 \<le> last_ack_sent s \<and> passes (GBNServer.loss_probability s) c then [last_ack_sent s] else [])
       \<and> take (length (GBNServer.log_entries s)) (GBNServer.log_entries (snd (process_packet s d c))) = GBNServer.log_entries s"
proof -
  let ?s1 = "server_log_event (s\<lparr>GBNServer.stats := incr (GBNServer.stats s) ''packets_received''\<rparr>)
                ''RECV'' (Some (JInt n)) ''Ricevuto''"
  have a: "ack_attempts (appended (GBNServer.log_entries s) (GBNServer.log_entries (snd (reject_out_of_order ?s1 (JInt n) c))))
        = (if 0 \<le> last_ack_sent s then [Some (JInt (last_ack_sent s))] else [])"
    by (simp add: reject_log server_log_event_sel appended_append ack_attempts_other ack_attempts_own
          ack_attempts_append ack_attempts_Cons2)
  have b: "GBNServer.socket_out (snd (reject_out_of_order ?s1 (JInt n) c))
           = GBNServer.socket_out s
             @ (if 0 \<le> last_ack_sent s \<and> passes (GBNServer.loss_probability s) c then [last_ack_sent s] else [])"
    by (simp add: reject_socket server_log_event_sel)
  have "take (length (GBNServer.log_entries s)) (take (length (GBNServer.log_entries ?s1)) (GBNServer.log_entries (snd (reject_out_of_order ?s1 (JInt n) c))))
       = GBNServer.log_entries s"
    unfolding reject_log_prefix by (simp add: server_log_event_sel)
  then have c: "take (length (GBNServer.log_entries s)) (GBNServer.log_entries (snd (reject_out_of_order ?s1 (JInt n) c)))
       = GBNServer.log_entries s"
    by (simp add: server_log_event_sel min_def)
  show ?thesis
    unfolding process_packet_reject [OF assms] using a b c by blast
qed

text \<open>
  A new receiver that gets packet 2 first sends nothing; once it has accepted packet 0 it
  answers packet 2 with a second ACK for 0.
\<close>

theorem reject_resends_last_ack_once_witness:
  "well_formed (create_packet 2 ''c'') 2
   \<and> 2 \<noteq> expected_seq_num (server_init 0)
   \<and> \<not> 0 \<le> last_ack_sent (server_init 0)
   \<and> ack_attempts (appended (GBNServer.log_entries (server_init 0))
        (GBNServer.log_entries (snd (process_packet (server_init 0) (create_packet 2 ''c'') chance_ok)))) = []
   \<and> 2 \<noteq> expected_seq_num accepted_first
   \<and> 0 \<le> last_ack_sent accepted_first
   \<and> ack_attempts (appended (GBNServer.log_entries accepted_first)
        (GBNServer.log_entries (snd (process_packet accepted_first (create_packet 2 ''c'') chance_ok))))
       = [Some (JInt 0)]
   \<and> GBNServer.socket_out (snd (process_packet accepted_first (create_packet 2 ''c'') chance_ok)) = [0, 0]"
proof -
  have w: "well_formed (create_packet 2 ''c'') 2"
    by (simp add: well_formed_def create_packet_def)
  have f: "expected_seq_num accepted_first = 1" "last_ack_sent accepted_first = 0"
    "GBNServer.socket_out accepted_first = [0]" "GBNServer.loss_probability accepted_first = 0"
    by (simp_all add: accepted_first_eq)
  show ?thesis
    using reject_resends_last_ack_once [OF w, of "server_init 0" chance_ok] reject_resends_last_ack_once [OF w, of accepted_first chance_ok] w
    by (simp add: f server_init_def passes_def chance_ok_def)
qed





section \<open>Properties of the sender: single steps\<close>

lemma log_event_sel:
  "window_size (log_event s a b m) = window_size s"
  "base (log_event s a b m) = base s"
  "next_seq_num (log_event s a b m) = next_seq_num s"
  "window (log_event s a b m) = window s"
  "timers (log_event s a b m) = timers s"
  "timers_created (log_event s a b m) = timers_created s"
  "cancelled (log_event s a b m) = cancelled s"
  "loss_probability (log_event s a b m) = loss_probability s"
  "stats (log_event s a b m) = stats s"
  "running (log_event s a b m) = running s"
  "socket_out (log_event s a b m) = socket_out s"
  "log_entries (log_event s a b m) = log_entries s @ [(a, b, m)]"
  by (simp_all add: log_event_def)

lemma send_packet_frame:
  "window_size (send_packet s i d r c) = window_size s"
  "base (send_packet s i d r c) = base s"
  "next_seq_num (send_packet s i d r c) = next_seq_num s"
  "window (send_packet s i d r c) = window s"
  "timers (send_packet s i d r c) = timers s"
  "timers_created (send_packet s i d r c) = timers_created s"
  "cancelled (send_packet s i d r c) = cancelled s"
  "loss_probability (send_packet s i d r c) = loss_probability s"
  "running (send_packet s i d r c) = running s"
  by (simp_all add: send_packet_def simulate_packet_loss_def log_event_sel Let_def)

lemma send_packet_socket:
  "socket_out (send_packet s i d r c) = socket_out s @ (if passes (loss_probability s) c then [(i, d)] else [])"
  by (simp add: send_packet_def simulate_packet_loss_def log_event_sel Let_def passes_def)

lemma send_packet_log:
  "log_entries (send_packet s i d r c) =
     log_entries s
     @ [if 0 < loss_probability s \<and> draw c < loss_probability s
        then (''LOSS'', Some i, ''Pacchetto simulato come perso'')
        else if sendto_ok c
             then (if r then (''RETX'', Some i, ''Ritrasmissione pacchetto'')
                   else (''SEND'', Some i, ''Invio pacchetto''))
             else (''ERROR'', Some i, ''Errore invio'')]"
  by (simp add: send_packet_def simulate_packet_loss_def log_event_sel Let_def)

lemma send_packet_stats:
  "stats (send_packet s i d r c) =
     (if 0 < loss_probability s \<and> draw c < loss_probability s then incr (stats s) ''packets_lost''
      else if sendto_ok c
           then (if r then incr (incr (stats s) ''packets_sent'') ''retransmissions''
                 else incr (stats s) ''packets_sent'')
           else stats s)"
  by (simp add: send_packet_def simulate_packet_loss_def log_event_sel Let_def)

lemma start_timer_frame:
  "window_size (start_timer s i) = window_size s"
  "base (start_timer s i) = base s"
  "next_seq_num (start_timer s i) = next_seq_num s"
  "window (start_timer s i) = window s"
  "loss_probability (start_timer s i) = loss_probability s"
  "stats (start_timer s i) = stats s"
  "running (start_timer s i) = running s"
  "socket_out (start_timer s i) = socket_out s"
  "log_entries (start_timer s i) = log_entries s @ [(''TIMER_START'', Some i, ''Timer avviato'')]"
  by (simp_all add: start_timer_def log_event_sel Let_def split: option.splits)

lemma start_timer_timers:
  "timers (start_timer s i) = (timers s)(i \<mapsto> timers_created s)"
  "timers_created (start_timer s i) = Suc (timers_created s)"
  "cancelled (start_timer s i) = cancelled s \<union> (case timers s i of Some t \<Rightarrow> {t} | None \<Rightarrow> {})"
  by (simp_all add: start_timer_def log_event_sel Let_def split: option.splits)

lemma stop_timer_frame:
  "window_size (stop_timer s i) = window_size s"
  "base (stop_timer s i) = base s"
  "next_seq_num (stop_timer s i) = next_seq_num s"
  "window (stop_timer s i) = window s"
  "loss_probability (stop_timer s i) = loss_probability s"
  "stats (stop_timer s i) = stats s"
  "running (stop_timer s i) = running s"
  "socket_out (stop_timer s i) = socket_out s"
  "timers_created (stop_timer s i) = timers_created s"
  by (simp_all add: stop_timer_def log_event_sel split: option.splits)

lemma stop_timer_timers:
  "timers (stop_timer s i) = (timers s)(i := None)"
  "cancelled (stop_timer s i) = cancelled s \<union> (case timers s i of Some t \<Rightarrow> {t} | None \<Rightarrow> {})"
  by (auto simp add: stop_timer_def log_event_sel split: option.splits)

lemma send_data_begin_frame:
  "window_size (send_data_begin s) = window_size s"
  "base (send_data_begin s) = base s"
  "next_seq_num (send_data_begin s) = next_seq_num s"
  "window (send_data_begin s) = window s"
  "stats (send_data_begin s) = stats s"
  by (simp_all add: send_data_begin_def log_event_sel)

lemma send_data_end_frame:
  "window_size (send_data_end s) = window_size s"
  "base (send_data_end s) = base s"
  "next_seq_num (send_data_end s) = next_seq_num s"
  "window (send_data_end s) = window s"
  "stats (send_data_end s) = stats s"
  by (simp_all add: send_data_end_def log_event_sel)

lemma close_frame:
  "window_size (close s) = window_size s"
  "base (close s) = base s"
  "next_seq_num (close s) = next_seq_num s"
  "window (close s) = window s"
  "stats (close s) = stats s"
  by (simp_all add: close_def)

lemma send_data_fill_frame:
  "window_size (send_data_fill s d c) = window_size s"
  "base (send_data_fill s d c) = base s"
  "next_seq_num (send_data_fill s d c) = next_seq_num s + 1"
  "window (send_data_fill s d c) = (window s)(next_seq_num s \<mapsto> d)"
  by (simp_all add: send_data_fill_def Let_def log_event_sel start_timer_frame send_packet_frame)

lemma send_data_fill_stats:
  "stats (send_data_fill s d c) ''retransmissions'' = stats s ''retransmissions''"
  "stats s ''packets_sent'' \<le> stats (send_data_fill s d c) ''packets_sent''"
  by (simp_all add: send_data_fill_def Let_def log_event_sel start_timer_frame send_packet_frame
        send_packet_stats incr_apply)

text \<open>Reading transmission attempts off a piece of the log.\<close>

lemma send_attempts_append: "send_attempts (xs @ ys) = send_attempts xs @ send_attempts ys"
  by (simp add: send_attempts_def)

lemma send_attempts_Cons2: "send_attempts (x # y # ys) = send_attempts [x] @ send_attempts (y # ys)"
  by (simp add: send_attempts_def)

lemma send_attempts_own:
  "send_attempts [(''LOSS'', x, m)] = [x]"
  "send_attempts [(''SEND'', x, m)] = [x]"
  "send_attempts [(''RETX'', x, m)] = [x]"
  "send_attempts [(''ERROR'', x, ''Errore invio'')] = [x]"
  by (simp_all add: send_attempts_def is_send_attempt_def)

lemma send_attempts_other:
  "send_attempts [] = []"
  "send_attempts [(''TIMER_START'', x, m)] = []"
  "send_attempts [(''TIMER_STOP'', x, m)] = []"
  "send_attempts [(''TIMEOUT'', x, m)] = []"
  "send_attempts [(''ACK_RECV'', x, m)] = []"
  "send_attempts [(''WINDOW_UPDATE'', x, m)] = []"
  "send_attempts [(''WINDOW_ADD'', x, m)] = []"
  by (simp_all add: send_attempts_def is_send_attempt_def)


section \<open>The loop of the timeout handler\<close>

lemma set_py_range: "set (py_range a b) = {i. a \<le> i \<and> i < b}"
  by (auto simp add: py_range_def)

lemma outstanding_set:
  "set (outstanding s) = {i. base s \<le> i \<and> i < next_seq_num s \<and> i \<in> dom (window s)}"
  by (auto simp add: outstanding_def py_range_def)

lemma retransmit_from_frame:
  "window (retransmit_from s xs ch) = window s"
  "base (retransmit_from s xs ch) = base s"
  "next_seq_num (retransmit_from s xs ch) = next_seq_num s"
  "window_size (retransmit_from s xs ch) = window_size s"
  "loss_probability (retransmit_from s xs ch) = loss_probability s"
  "running (retransmit_from s xs ch) = running s"
  by (induction xs arbitrary: s; simp add: start_timer_frame send_packet_frame split: option.splits)+

lemma retransmit_from_idle:
  "\<forall>i \<in> set xs. window s i = None \<Longrightarrow> retransmit_from s xs ch = s"
  by (induction xs arbitrary: s) simp_all

lemma retransmit_from_socket:
  "socket_out (retransmit_from s xs ch) =
     socket_out s @ map (\<lambda>i. (i, the (window s i)))
                      (filter (\<lambda>i. passes (loss_probability s) (ch i)) (filter (\<lambda>i. i \<in> dom (window s)) xs))"
proof (induction xs arbitrary: s)
  case Nil
  show ?case by simp
next
  case (Cons a xs)
  show ?case
  proof (cases "window s a")
    case None
    then show ?thesis by (simp add: Cons.IH domIff)
  next
    case (Some d)
    then show ?thesis
      by (simp add: Cons.IH start_timer_frame send_packet_frame send_packet_socket domIff)
  qed
qed

lemma retransmit_from_stats:
  "stats (retransmit_from s xs ch) ''retransmissions'' =
     stats s ''retransmissions''
     + int (length (filter (\<lambda>i. passes (loss_probability s) (ch i)) (filter (\<lambda>i. i \<in> dom (window s)) xs)))"
  "stats (retransmit_from s xs ch) ''packets_sent'' =
     stats s ''packets_sent''
     + int (length (filter (\<lambda>i. passes (loss_probability s) (ch i)) (filter (\<lambda>i. i \<in> dom (window s)) xs)))"
  "stats (retransmit_from s xs ch) ''acks_received'' = stats s ''acks_received''"
  "stats (retransmit_from s xs ch) ''packets_lost'' =
     stats s ''packets_lost''
     + int (length (filter (\<lambda>i. 0 < loss_probability s \<and> draw (ch i) < loss_probability s)
                      (filter (\<lambda>i. i \<in> dom (window s)) xs)))"
  by (induction xs arbitrary: s;
      simp add: start_timer_frame send_packet_frame send_packet_stats incr_apply passes_def domIff
           split: option.splits)+

lemma retransmit_from_log:
  "\<exists>es. log_entries (retransmit_from s xs ch) = log_entries s @ es
        \<and> send_attempts es = map Some (filter (\<lambda>i. i \<in> dom (window s)) xs)
        \<and> (\<forall>e \<in> set es. fst e \<noteq> ''SEND'')"
proof (induction xs arbitrary: s)
  case Nil
  show ?case by (simp add: send_attempts_other)
next
  case (Cons a xs)
  show ?case
  proof (cases "window s a")
    case None
    then show ?thesis using Cons.IH [of s] by (simp add: domIff)
  next
    case (Some d)
    let ?s1 = "start_timer (send_packet s a d True (ch a)) a"
    obtain es where es: "log_entries (retransmit_from ?s1 xs ch) = log_entries ?s1 @ es"
      "send_attempts es = map Some (filter (\<lambda>i. i \<in> dom (window s)) xs)"
      "\<forall>e \<in> set es. fst e \<noteq> ''SEND''"
      using Cons.IH [of ?s1] by (auto simp add: start_timer_frame send_packet_frame)
    let ?e = "if 0 < loss_probability s \<and> draw (ch a) < loss_probability s
        then (''LOSS'', Some a, ''Pacchetto simulato come perso'')
        else if sendto_ok (ch a)
             then (''RETX'', Some a, ''Ritrasmissione pacchetto'')
             else (''ERROR'', Some a, ''Errore invio'')"
    have l1: "log_entries ?s1 = log_entries s @ [?e, (''TIMER_START'', Some a, ''Timer avviato'')]"
      by (simp add: start_timer_frame send_packet_log)
    have a1: "send_attempts [?e, (''TIMER_START'', Some a, ''Timer avviato'')] = [Some a]"
      by (simp add: send_attempts_Cons2 send_attempts_own send_attempts_other)
    have n1: "fst ?e \<noteq> ''SEND''" by simp
    have "log_entries (retransmit_from s (a # xs) ch)
          = log_entries s @ ([?e, (''TIMER_START'', Some a, ''Timer avviato'')] @ es)"
      using Some es(1) l1 by simp
    moreover have "send_attempts ([?e, (''TIMER_START'', Some a, ''Timer avviato'')] @ es)
          = map Some (filter (\<lambda>i. i \<in> dom (window s)) (a # xs))"
      unfolding send_attempts_append a1 es(2) using Some by (simp add: domIff)
    moreover have "\<forall>e \<in> set ([?e, (''TIMER_START'', Some a, ''Timer avviato'')] @ es). fst e \<noteq> ''SEND''"
      using es(3) n1 by simp
    ultimately show ?thesis by blast
  qed
qed

lemma retransmit_from_timers:
  assumes "distinct xs"
  shows "timers_created (retransmit_from s xs ch)
           = timers_created s + length (filter (\<lambda>i. i \<in> dom (window s)) xs)
       \<and> cancelled (retransmit_from s xs ch)
           = cancelled s \<union> {t. \<exists>i \<in> set xs. i \<in> dom (window s) \<and> timers s i = Some t}
       \<and> (\<forall>i. (i \<in> set xs \<and> i \<in> dom (window s) \<longrightarrow>
                  (\<exists>t. timers (retransmit_from s xs ch) i = Some t \<and> timers_created s \<le> t
                       \<and> t < timers_created (retransmit_from s xs ch)))
              \<and> (\<not> (i \<in> set xs \<and> i \<in> dom (window s)) \<longrightarrow>
                  timers (retransmit_from s xs ch) i = timers s i))"
  using assms
proof (induction xs arbitrary: s)
  case Nil
  show ?case by simp
next
  case (Cons a xs)
  then have d: "distinct xs" and a: "a \<notin> set xs" by simp_all
  show ?case
  proof (cases "window s a")
    case None
    then show ?thesis using Cons.IH [OF d, of s] by (auto simp add: domIff)
  next
    case (Some v)
    let ?s1 = "start_timer (send_packet s a v True (ch a)) a"
    have w1: "window ?s1 = window s" by (simp add: start_timer_frame send_packet_frame)
    have t1: "timers ?s1 = (timers s)(a \<mapsto> timers_created s)"
      by (simp add: start_timer_timers send_packet_frame)
    have c1: "timers_created ?s1 = Suc (timers_created s)"
      by (simp add: start_timer_timers send_packet_frame)
    have k1: "cancelled ?s1 = cancelled s \<union> (case timers s a of Some t \<Rightarrow> {t} | None \<Rightarrow> {})"
      by (simp add: start_timer_timers send_packet_frame)
    have r: "retransmit_from s (a # xs) ch = retransmit_from ?s1 xs ch"
      using Some by simp
    note IH = Cons.IH [OF d, of ?s1, unfolded w1 t1 c1 k1]
    have "timers_created (retransmit_from ?s1 xs ch)
           = timers_created s + length (filter (\<lambda>i. i \<in> dom (window s)) (a # xs))"
      using IH Some by (simp add: domIff)
    moreover have "cancelled (retransmit_from ?s1 xs ch)
           = cancelled s \<union> {t. \<exists>i \<in> set (a # xs). i \<in> dom (window s) \<and> timers s i = Some t}"
    proof -
      have "cancelled (retransmit_from ?s1 xs ch)
            = (cancelled s \<union> (case timers s a of Some t \<Rightarrow> {t} | None \<Rightarrow> {}))
              \<union> {t. \<exists>i \<in> set xs. i \<in> dom (window s) \<and> ((timers s)(a \<mapsto> timers_created s)) i = Some t}"
        using IH by blast
      also have "{t. \<exists>i \<in> set xs. i \<in> dom (window s) \<and> ((timers s)(a \<mapsto> timers_created s)) i = Some t}
            = {t. \<exists>i \<in> set xs. i \<in> dom (window s) \<and> timers s i = Some t}"
        using a by auto
      finally show ?thesis using Some by (auto split: option.splits)
    qed
    moreover have "\<forall>i. (i \<in> set (a # xs) \<and> i \<in> dom (window s) \<longrightarrow>
                  (\<exists>t. timers (retransmit_from ?s1 xs ch) i = Some t \<and> timers_created s \<le> t
                       \<and> t < timers_created (retransmit_from ?s1 xs ch)))
              \<and> (\<not> (i \<in> set (a # xs) \<and> i \<in> dom (window s)) \<longrightarrow>
                  timers (retransmit_from ?s1 xs ch) i = timers s i)"
    proof
      fix i
      have IHi: "(i \<in> set xs \<and> i \<in> dom (window s) \<longrightarrow>
                  (\<exists>t. timers (retransmit_from ?s1 xs ch) i = Some t \<and> Suc (timers_created s) \<le> t
                       \<and> t < timers_created (retransmit_from ?s1 xs ch)))
              \<and> (\<not> (i \<in> set xs \<and> i \<in> dom (window s)) \<longrightarrow>
                  timers (retransmit_from ?s1 xs ch) i = ((timers s)(a \<mapsto> timers_created s)) i)"
        using IH by blast
      have tc: "timers_created (retransmit_from ?s1 xs ch) > timers_created s"
        using IH by simp
      show "(i \<in> set (a # xs) \<and> i \<in> dom (window s) \<longrightarrow>
                  (\<exists>t. timers (retransmit_from ?s1 xs ch) i = Some t \<and> timers_created s \<le> t
                       \<and> t < timers_created (retransmit_from ?s1 xs ch)))
              \<and> (\<not> (i \<in> set (a # xs) \<and> i \<in> dom (window s)) \<longrightarrow>
                  timers (retransmit_from ?s1 xs ch) i = timers s i)"
      proof (cases "i = a")
        case True
        then show ?thesis using IHi a tc Some by (auto simp add: domIff)
      next
        case False
        then show ?thesis using IHi by (auto simp add: Suc_le_eq less_imp_le)
      qed
    qed
    ultimately show ?thesis unfolding r by blast
  qed
qed

lemma timeout_handler_running:
  "running s \<Longrightarrow> timeout_handler s seq_num ch =
     retransmit_from (log_event s ''TIMEOUT'' (Some seq_num) ''Timeout scaduto - Avvio Go-Back-N'')
       (py_range (base s) (next_seq_num s)) ch"
  by (simp add: timeout_handler_def)

lemma timeout_handler_frame:
  "window_size (timeout_handler s seq_num ch) = window_size s"
  "base (timeout_handler s seq_num ch) = base s"
  "next_seq_num (timeout_handler s seq_num ch) = next_seq_num s"
  "window (timeout_handler s seq_num ch) = window s"
  by (simp_all add: timeout_handler_def retransmit_from_frame log_event_sel)

lemma timeout_handler_stats:
  "stats (timeout_handler s seq_num ch) ''packets_sent'' - stats (timeout_handler s seq_num ch) ''retransmissions''
     = stats s ''packets_sent'' - stats s ''retransmissions''"
  by (simp add: timeout_handler_def retransmit_from_stats log_event_sel)

lemma timeout_handler_idle:
  assumes "running s" and "outstanding s = []"
  shows "timeout_handler s seq_num ch
           = s\<lparr>log_entries := log_entries s @ [(''TIMEOUT'', Some seq_num, ''Timeout scaduto - Avvio Go-Back-N'')]\<rparr>"
proof -
  let ?s0 = "log_event s ''TIMEOUT'' (Some seq_num) ''Timeout scaduto - Avvio Go-Back-N''"
  from assms(2) have "\<forall>i \<in> set (py_range (base s) (next_seq_num s)). window ?s0 i = None"
    by (auto simp add: outstanding_def filter_empty_conv log_event_sel)
  then have "retransmit_from ?s0 (py_range (base s) (next_seq_num s)) ch = ?s0"
    by (rule retransmit_from_idle)
  then show ?thesis
    by (simp add: timeout_handler_running [OF assms(1)] log_event_def)
qed

lemma timeout_handler_attempts:
  assumes "running s"
  shows "send_attempts (appended (log_entries s) (log_entries (timeout_handler s seq_num ch)))
           = map Some (outstanding s)
       \<and> (\<forall>e \<in> set (appended (log_entries s) (log_entries (timeout_handler s seq_num ch))). fst e \<noteq> ''SEND'')"
proof -
  let ?s0 = "log_event s ''TIMEOUT'' (Some seq_num) ''Timeout scaduto - Avvio Go-Back-N''"
  obtain es where es: "log_entries (retransmit_from ?s0 (py_range (base s) (next_seq_num s)) ch) = log_entries ?s0 @ es"
      "send_attempts es = map Some (filter (\<lambda>i. i \<in> dom (window ?s0)) (py_range (base s) (next_seq_num s)))"
      "\<forall>e \<in> set es. fst e \<noteq> ''SEND''"
    using retransmit_from_log [of ?s0 "py_range (base s) (next_seq_num s)" ch] by blast
  have l: "log_entries (timeout_handler s seq_num ch)
           = log_entries s @ ((''TIMEOUT'', Some seq_num, ''Timeout scaduto - Avvio Go-Back-N'') # es)"
    by (simp add: timeout_handler_running [OF assms] es(1) log_event_sel)
  have a: "appended (log_entries s) (log_entries (timeout_handler s seq_num ch))
           = (''TIMEOUT'', Some seq_num, ''Timeout scaduto - Avvio Go-Back-N'') # es"
    unfolding l by (simp add: appended_def)
  have "send_attempts ((''TIMEOUT'', Some seq_num, ''Timeout scaduto - Avvio Go-Back-N'') # es) = send_attempts es"
    using send_attempts_append [of "[(''TIMEOUT'', Some seq_num, ''Timeout scaduto - Avvio Go-Back-N'')]" es]
    by (simp add: send_attempts_other)
  then show ?thesis
    unfolding a using es(2,3) by (simp add: outstanding_def log_event_sel)
qed

lemma timeout_handler_timers:
  assumes "running s" and "i \<in> set (outstanding s)"
  shows "\<exists>t. timers (timeout_handler s seq_num ch) i = Some t
           \<and> timers_created s \<le> t \<and> t < timers_created (timeout_handler s seq_num ch)
           \<and> (\<forall>t0. timers s i = Some t0 \<longrightarrow> t0 \<in> cancelled (timeout_handler s seq_num ch))
           \<and> (timers_allocated s \<longrightarrow> t \<notin> cancelled (timeout_handler s seq_num ch))"
proof -
  let ?s0 = "log_event s ''TIMEOUT'' (Some seq_num) ''Timeout scaduto - Avvio Go-Back-N''"
  let ?xs = "py_range (base s) (next_seq_num s)"
  have d: "distinct ?xs" by (simp add: py_range_def)
  note T = retransmit_from_timers [OF d, of ?s0 ch, unfolded log_event_sel,
      folded timeout_handler_running [OF assms(1), of seq_num ch]]
  from assms(2) have i: "i \<in> set ?xs \<and> i \<in> dom (window s)"
    by (simp add: outstanding_def)
  with T obtain t where t: "timers (timeout_handler s seq_num ch) i = Some t" "timers_created s \<le> t"
      "t < timers_created (timeout_handler s seq_num ch)"
    by blast
  have c: "cancelled (timeout_handler s seq_num ch)
           = cancelled s \<union> {t. \<exists>i \<in> set ?xs. i \<in> dom (window s) \<and> timers s i = Some t}"
    using T by blast
  have "\<forall>t0. timers s i = Some t0 \<longrightarrow> t0 \<in> cancelled (timeout_handler s seq_num ch)"
    unfolding c using i by blast
  moreover have "timers_allocated s \<longrightarrow> t \<notin> cancelled (timeout_handler s seq_num ch)"
    unfolding c using t(2) by (fastforce simp add: timers_allocated_def)
  ultimately show ?thesis using t by blast
qed

lemma timeout_handler_socket:
  assumes "running s"
  shows "socket_out (timeout_handler s seq_num ch)
           = socket_out s @ map (\<lambda>i. (i, the (window s i)))
                              (filter (\<lambda>i. passes (loss_probability s) (ch i)) (outstanding s))"
  by (simp add: timeout_handler_running [OF assms] retransmit_from_socket log_event_sel outstanding_def)

lemma timeout_handler_retransmissions:
  assumes "running s"
  shows "stats (timeout_handler s seq_num ch) ''retransmissions''
           = stats s ''retransmissions''
             + int (length (filter (\<lambda>i. passes (loss_probability s) (ch i)) (outstanding s)))"
  by (simp add: timeout_handler_running [OF assms] retransmit_from_stats log_event_sel outstanding_def)


section \<open>The loop of the ACK listener\<close>

lemma release_acked_frame:
  "window_size (release_acked s xs) = window_size s"
  "base (release_acked s xs) = base s"
  "next_seq_num (release_acked s xs) = next_seq_num s"
  "loss_probability (release_acked s xs) = loss_probability s"
  "stats (release_acked s xs) = stats s"
  "running (release_acked s xs) = running s"
  "socket_out (release_acked s xs) = socket_out s"
  "timers_created (release_acked s xs) = timers_created s"
  by (induction xs arbitrary: s; simp add: Let_def stop_timer_frame)+

lemma release_acked_window:
  "window (release_acked s xs) i = (if i \<in> set xs then None else window s i)"
  by (induction xs arbitrary: s) (auto simp add: Let_def stop_timer_frame domIff)

lemma release_acked_timers:
  "timers (release_acked s xs) i = (if i \<in> set xs then None else timers s i)"
  by (induction xs arbitrary: s) (simp_all add: Let_def stop_timer_timers)

lemma in_case_option: "t \<in> (case x of Some u \<Rightarrow> {u} | None \<Rightarrow> {}) \<longleftrightarrow> x = Some t"
  by (cases x) auto

lemma release_acked_cancelled_iff:
  "t \<in> cancelled (release_acked s xs) \<longleftrightarrow> t \<in> cancelled s \<or> (\<exists>i \<in> set xs. timers s i = Some t)"
proof (induction xs arbitrary: s)
  case Nil
  show ?case by simp
next
  case (Cons a xs)
  let ?s1 = "let s1 = stop_timer s a
             in if a \<in> dom (window s1) then s1\<lparr>window := (window s1)(a := None)\<rparr> else s1"
  have c1: "cancelled ?s1 = cancelled s \<union> (case timers s a of Some t \<Rightarrow> {t} | None \<Rightarrow> {})"
    and t1: "timers ?s1 = (timers s)(a := None)"
    by (simp_all add: Let_def stop_timer_timers)
  have "t \<in> cancelled (release_acked s (a # xs))
        \<longleftrightarrow> t \<in> cancelled ?s1 \<or> (\<exists>i \<in> set xs. timers ?s1 i = Some t)"
    using Cons.IH [of ?s1] by simp
  also have "\<dots> \<longleftrightarrow> (t \<in> cancelled s \<or> timers s a = Some t)
            \<or> (\<exists>i \<in> set xs. ((timers s)(a := None)) i = Some t)"
    unfolding c1 t1 by (simp only: Un_iff in_case_option)
  also have "\<dots> \<longleftrightarrow> t \<in> cancelled s \<or> (\<exists>i \<in> set (a # xs). timers s i = Some t)"
    by auto
  finally show ?case .
qed

lemma release_acked_cancelled:
  "cancelled (release_acked s xs) = cancelled s \<union> {t. \<exists>i \<in> set xs. timers s i = Some t}"
  by (rule set_eqI) (simp add: release_acked_cancelled_iff)

lemma receive_ack_stale:
  "ack_num < base s \<Longrightarrow>
     receive_ack s ack_num
       = s\<lparr>stats := incr (stats s) ''acks_received'',
           log_entries := log_entries s @ [(''ACK_RECV'', Some ack_num, ''ACK ricevuto'')]\<rparr>"
  by (simp add: receive_ack_def Let_def log_event_def)

lemma receive_ack_frame:
  "window_size (receive_ack s a) = window_size s"
  "next_seq_num (receive_ack s a) = next_seq_num s"
  "loss_probability (receive_ack s a) = loss_probability s"
  "stats (receive_ack s a) = incr (stats s) ''acks_received''"
  "running (receive_ack s a) = running s"
  "socket_out (receive_ack s a) = socket_out s"
  "timers_created (receive_ack s a) = timers_created s"
  "base (receive_ack s a) = (if base s \<le> a then a + 1 else base s)"
  by (simp_all add: receive_ack_def Let_def log_event_sel release_acked_frame)

lemma receive_ack_fresh:
  assumes "base s \<le> a"
  shows "window (receive_ack s a) i = (if base s \<le> i \<and> i \<le> a then None else window s i)"
    and "timers (receive_ack s a) i = (if base s \<le> i \<and> i \<le> a then None else timers s i)"
    and "cancelled (receive_ack s a)
           = cancelled s \<union> {t. \<exists>i. base s \<le> i \<and> i \<le> a \<and> timers s i = Some t}"
  using assms
  by (auto simp add: receive_ack_def Let_def log_event_sel release_acked_window release_acked_timers
        release_acked_cancelled set_py_range)

lemma receive_ack_window_dom:
  "dom (window (receive_ack s a)) = (if base s \<le> a then dom (window s) - {base s..a} else dom (window s))"
proof (cases "base s \<le> a")
  case True
  then show ?thesis
    by (auto simp add: receive_ack_fresh domIff split: if_splits)
next
  case False
  then show ?thesis by (simp add: receive_ack_stale)
qed


section \<open>Invariants of the reachable sender states\<close>

lemma reachable_sent_invariant:
  assumes "reachable_sent ws p s"
  shows "base s \<le> next_seq_num s \<and> dom (window s) = {base s..<next_seq_num s}"
  using assms
proof (induction rule: reachable_sent.induct)
  case sent_init
  then show ?case by (simp add: client_init_def)
next
  case (sent_begin s)
  then show ?case by (simp add: send_data_begin_frame)
next
  case (sent_fill s data c)
  then have inv: "base s \<le> next_seq_num s" "dom (window s) = {base s..<next_seq_num s}" by simp_all
  have "insert (next_seq_num s) {base s..<next_seq_num s} = {base s..<next_seq_num s + 1}"
    using inv(1) by auto
  moreover have "dom (window (send_data_fill s data c)) = insert (next_seq_num s) (dom (window s))"
    by (simp add: send_data_fill_frame)
  ultimately show ?case
    using inv by (simp add: send_data_fill_frame(1-3))
next
  case (sent_ack s ack_num)
  then have inv: "base s \<le> next_seq_num s" "dom (window s) = {base s..<next_seq_num s}" by simp_all
  show ?case
  proof (cases "base s \<le> ack_num")
    case True
    have "{base s..<next_seq_num s} - {base s..ack_num} = {ack_num + 1..<next_seq_num s}"
      using True by auto
    then show ?thesis
      using True inv sent_ack.hyps(2) by (simp add: receive_ack_frame receive_ack_window_dom)
  next
    case False
    then show ?thesis
      using inv by (simp add: receive_ack_frame receive_ack_window_dom)
  qed
next
  case (sent_timeout s seq_num ch)
  then show ?case by (simp add: timeout_handler_frame)
next
  case (sent_end s)
  then show ?case by (simp add: send_data_end_frame)
next
  case (sent_close s)
  then show ?case by (simp add: close_frame)
qed

lemma reachable_sent_reachable:
  assumes "reachable_sent ws p s"
  shows "reachable ws p s"
  using assms
  by (induction rule: reachable_sent.induct) (auto intro: reachable.intros)

lemma reachable_flow_control:
  assumes "reachable ws p s" and "0 \<le> ws"
  shows "window_size s = ws \<and> finite (dom (window s))
       \<and> {base s..<next_seq_num s} \<subseteq> dom (window s)
       \<and> next_seq_num s - base s \<le> ws"
  using assms
proof (induction rule: reachable.induct)
  case reach_init
  then show ?case by (simp add: client_init_def)
next
  case (reach_begin s)
  then show ?case by (simp add: send_data_begin_frame)
next
  case (reach_fill s data c)
  then have inv: "window_size s = ws" "finite (dom (window s))"
    "{base s..<next_seq_num s} \<subseteq> dom (window s)" by simp_all
  from reach_fill.hyps(2) have room: "int (card (dom (window s))) < ws"
    using inv(1) by (simp add: window_has_room_def)
  have "card {base s..<next_seq_num s} \<le> card (dom (window s))"
    using inv(2,3) by (rule card_mono)
  then have "next_seq_num s - base s \<le> int (card (dom (window s)))"
    by simp
  with room have bound: "next_seq_num s + 1 - base s \<le> ws" by simp
  have d: "dom (window (send_data_fill s data c)) = insert (next_seq_num s) (dom (window s))"
    by (simp add: send_data_fill_frame)
  have "{base s..<next_seq_num s + 1} \<subseteq> insert (next_seq_num s) {base s..<next_seq_num s}"
    by auto
  with inv(3) have "{base s..<next_seq_num s + 1} \<subseteq> insert (next_seq_num s) (dom (window s))"
    by blast
  then show ?case
    using inv bound unfolding d by (simp add: send_data_fill_frame(1-3))
next
  case (reach_ack s ack_num)
  then have inv: "window_size s = ws" "finite (dom (window s))"
    "{base s..<next_seq_num s} \<subseteq> dom (window s)" "next_seq_num s - base s \<le> ws" by simp_all
  show ?case
  proof (cases "base s \<le> ack_num")
    case True
    have "{ack_num + 1..<next_seq_num s} \<subseteq> {base s..<next_seq_num s} - {base s..ack_num}"
      using True by auto
    with inv(3) have "{ack_num + 1..<next_seq_num s} \<subseteq> dom (window s) - {base s..ack_num}"
      by blast
    then show ?thesis
      using True inv by (simp add: receive_ack_frame receive_ack_window_dom)
  next
    case False
    then show ?thesis
      using inv by (simp add: receive_ack_frame receive_ack_window_dom)
  qed
next
  case (reach_timeout s seq_num ch)
  then show ?case by (simp add: timeout_handler_frame)
next
  case (reach_end s)
  then show ?case by (simp add: send_data_end_frame)
next
  case (reach_close s)
  then show ?case by (simp add: close_frame)
qed

lemma reachable_retransmissions:
  assumes "reachable ws p s"
  shows "stats s ''retransmissions'' \<le> stats s ''packets_sent''"
  using assms
proof (induction rule: reachable.induct)
  case reach_init
  show ?case by (simp add: client_init_def)
next
  case (reach_begin s)
  then show ?case by (simp add: send_data_begin_frame)
next
  case (reach_fill s data c)
  then show ?case
    using send_data_fill_stats [of s data c] by simp
next
  case (reach_ack s ack_num)
  then show ?case by (simp add: receive_ack_frame incr_apply)
next
  case (reach_timeout s seq_num ch)
  then show ?case
    using timeout_handler_stats [of s seq_num ch] by simp
next
  case (reach_end s)
  then show ?case by (simp add: send_data_end_frame)
next
  case (reach_close s)
  then show ?case by (simp add: close_frame)
qed


section \<open>The example runs, evaluated\<close>

lemma begin_eq:
  "send_data_begin (client_init 3 0) =
     \<lparr>window_size = 3, base = 0, next_seq_num = 0, window = Map.empty, timers = Map.empty,
      timers_created = 0, cancelled = {}, loss_probability = 0, stats = (\<lambda>_. 0),
      log_entries = [(''SESSION_START'', None, ''Inizio trasmissione'')], running = True, socket_out = []\<rparr>"
  by (simp add: send_data_begin_def client_init_def log_event_def)

lemma fill_ok_eq:
  "send_data_fill \<lparr>window_size = ws, base = b, next_seq_num = n, window = w, timers = t,
      timers_created = tc, cancelled = k, loss_probability = 0, stats = st,
      log_entries = l, running = r, socket_out = so\<rparr> d chance_ok =
    \<lparr>window_size = ws, base = b, next_seq_num = n + 1, window = w(n \<mapsto> d), timers = t(n \<mapsto> tc),
      timers_created = Suc tc, cancelled = k \<union> (case t n of Some x \<Rightarrow> {x} | None \<Rightarrow> {}), loss_probability = 0,
      stats = incr st ''packets_sent'',
      log_entries = l @ [(''SEND'', Some n, ''Invio pacchetto''), (''TIMER_START'', Some n, ''Timer avviato''),
                         (''WINDOW_ADD'', Some n, ''Aggiunto alla finestra'')],
      running = r, socket_out = so @ [(n, d)]\<rparr>"
  by (simp add: send_data_fill_def send_packet_def simulate_packet_loss_def start_timer_def log_event_def
        chance_ok_def Let_def split: option.splits)

lemma one_in_flight_eq:
  "send_data_fill (send_data_begin (client_init 3 0)) ''a'' chance_ok =
     \<lparr>window_size = 3, base = 0, next_seq_num = 1, window = [0 \<mapsto> ''a''],
      timers = [0 \<mapsto> 0], timers_created = Suc 0, cancelled = {}, loss_probability = 0,
      stats = (\<lambda>_. 0)(''packets_sent'' := 1),
      log_entries = [(''SESSION_START'', None, ''Inizio trasmissione''),
                     (''SEND'', Some 0, ''Invio pacchetto''), (''TIMER_START'', Some 0, ''Timer avviato''),
                     (''WINDOW_ADD'', Some 0, ''Aggiunto alla finestra'')],
      running = True, socket_out = [(0, ''a'')]\<rparr>"
  by (simp add: begin_eq fill_ok_eq incr_def)

lemma two_in_flight_eq:
  "two_in_flight =
     \<lparr>window_size = 3, base = 0, next_seq_num = 2, window = [0 \<mapsto> ''a'', 1 \<mapsto> ''b''],
      timers = [0 \<mapsto> 0, 1 \<mapsto> Suc 0], timers_created = Suc (Suc 0), cancelled = {}, loss_probability = 0,
      stats = (\<lambda>_. 0)(''packets_sent'' := 2),
      log_entries = [(''SESSION_START'', None, ''Inizio trasmissione''),
                     (''SEND'', Some 0, ''Invio pacchetto''), (''TIMER_START'', Some 0, ''Timer avviato''),
                     (''WINDOW_ADD'', Some 0, ''Aggiunto alla finestra''),
                     (''SEND'', Some 1, ''Invio pacchetto''), (''TIMER_START'', Some 1, ''Timer avviato''),
                     (''WINDOW_ADD'', Some 1, ''Aggiunto alla finestra'')],
      running = True, socket_out = [(0, ''a''), (1, ''b'')]\<rparr>"
  by (simp add: two_in_flight_def begin_eq fill_ok_eq incr_def)

lemma two_in_flight_stats:
  "stats two_in_flight ''packets_sent'' = 2"
  "stats two_in_flight ''retransmissions'' = 0"
  "stats two_in_flight ''acks_received'' = 0"
  "stats two_in_flight ''packets_lost'' = 0"
  "loss_probability two_in_flight = 0"
  by (simp_all add: two_in_flight_eq)

lemma upto_0_1: "[0..1::int] = [0, 1]"
  by (simp add: upto.simps)

lemma outstanding_two_in_flight: "outstanding two_in_flight = [0, 1]"
  by (simp add: two_in_flight_eq outstanding_def py_range_def upto_0_1)

lemma passes_ok: "passes 0 chance_ok" "passes 0 (all_ok i)"
  by (simp_all add: passes_def chance_ok_def all_ok_def)

lemma reachable_two_in_flight: "reachable 3 0 two_in_flight"
proof -
  have r0: "reachable 3 0 (send_data_begin (client_init 3 0))"
    by (rule reach_begin) (rule reach_init)
  have r1: "reachable 3 0 (send_data_fill (send_data_begin (client_init 3 0)) ''a'' chance_ok)"
    by (rule reach_fill [OF r0]) (simp add: begin_eq window_has_room_def)
  show ?thesis
    unfolding two_in_flight_def
    by (rule reach_fill [OF r1]) (simp add: one_in_flight_eq window_has_room_def)
qed

lemma first_acked_fields:
  "running first_acked"
  "base first_acked = 1"
  "next_seq_num first_acked = 2"
  "window first_acked = [1 \<mapsto> ''b'']"
  "loss_probability first_acked = 0"
  "socket_out first_acked = [(0, ''a''), (1, ''b'')]"
  "stats first_acked ''retransmissions'' = 0"
  "window_size first_acked = 3"
  by (auto simp add: first_acked_def receive_ack_frame receive_ack_fresh two_in_flight_eq incr_def)

lemma outstanding_first_acked: "outstanding first_acked = [1]"
  by (simp add: outstanding_def first_acked_fields py_range_def upto.simps)

lemma reachable_first_acked: "reachable 3 0 first_acked"
  unfolding first_acked_def
  by (rule reach_ack [OF reachable_two_in_flight])

lemma reachable_sent_first_acked: "reachable_sent 3 0 first_acked"
proof -
  have r0: "reachable_sent 3 0 (send_data_begin (client_init 3 0))"
    by (rule sent_begin) (rule sent_init)
  have r1: "reachable_sent 3 0 (send_data_fill (send_data_begin (client_init 3 0)) ''a'' chance_ok)"
    by (rule sent_fill [OF r0]) (simp add: begin_eq window_has_room_def)
  have r2: "reachable_sent 3 0 two_in_flight"
    unfolding two_in_flight_def
    by (rule sent_fill [OF r1]) (simp add: one_in_flight_eq window_has_room_def)
  show ?thesis
    unfolding first_acked_def
    by (rule sent_ack [OF r2]) (simp add: two_in_flight_eq)
qed

lemma ack_beyond_fields:
  "base ack_beyond = 5"
  "next_seq_num ack_beyond = 2"
  "window ack_beyond = Map.empty"
  "window_size ack_beyond = 3"
  by (auto simp add: ack_beyond_def receive_ack_frame receive_ack_fresh two_in_flight_eq)

lemma reachable_ack_beyond: "reachable 3 0 ack_beyond"
  unfolding ack_beyond_def
  by (rule reach_ack [OF reachable_two_in_flight])

lemma retransmitted_acked_stats:
  "stats retransmitted_acked ''packets_sent'' = 4"
  "stats retransmitted_acked ''retransmissions'' = 2"
  "stats retransmitted_acked ''acks_received'' = 1"
  "stats retransmitted_acked ''packets_lost'' = 0"
proof -
  have r: "running two_in_flight" by (simp add: two_in_flight_eq)
  have l: "length (filter (\<lambda>i. passes (loss_probability two_in_flight) (all_ok i)) (outstanding two_in_flight)) = 2"
    by (simp add: outstanding_two_in_flight two_in_flight_stats passes_ok)
  have "stats (timeout_handler two_in_flight 0 all_ok) ''retransmissions'' = 2"
    unfolding timeout_handler_retransmissions [OF r] l by (simp add: two_in_flight_stats)
  moreover have "stats (timeout_handler two_in_flight 0 all_ok) ''packets_sent'' = 4"
    using timeout_handler_stats [of two_in_flight 0 all_ok] calculation
    by (simp add: two_in_flight_stats)
  moreover have "stats (timeout_handler two_in_flight 0 all_ok) ''acks_received'' = 0"
    by (simp add: timeout_handler_running [OF r] retransmit_from_stats log_event_sel two_in_flight_stats)
  moreover have "stats (timeout_handler two_in_flight 0 all_ok) ''packets_lost'' = 0"
    by (simp add: timeout_handler_running [OF r] retransmit_from_stats log_event_sel two_in_flight_stats)
  ultimately show "stats retransmitted_acked ''packets_sent'' = 4"
  "stats retransmitted_acked ''retransmissions'' = 2"
  "stats retransmitted_acked ''acks_received'' = 1"
  "stats retransmitted_acked ''packets_lost'' = 0"
    by (simp_all add: retransmitted_acked_def receive_ack_frame incr_apply)
qed


section \<open>Claims about the sender\<close>

text \<open>
  Claim C1, as amended. While the sender is \<^verbatim>\<open>running\<close>, a timeout firing for any sequence
  number calls \<^verbatim>\<open>send_packet\<close> as a retransmission once for every sequence number of
  \<open>[base, next_seq_num)\<close> that is a key of the window, in increasing order, and for
  nothing else; none of the calls is an original send. The packets that pass the loss
  simulation and the socket are put on the wire with their payload and counted as
  retransmissions. Each of these sequence numbers gets a \<^verbatim>\<open>Timer\<close> object created by this
  call; its previous timer is cancelled, and the new one is not cancelled if all timers in
  use had been allocated. \<open>base\<close>, \<open>next_seq_num\<close> and the window do not change.
  Whenever the sender is not running, the handler returns the state as it is, whatever
  the window holds and whichever sequence number fired.
\<close>

theorem timeout_handler_effects:
  "(running s \<longrightarrow>
      send_attempts (appended (log_entries s) (log_entries (timeout_handler s seq_num ch)))
        = map Some (outstanding s)
      \<and> (\<forall>e \<in> set (appended (log_entries s) (log_entries (timeout_handler s seq_num ch))). fst e \<noteq> ''SEND'')
      \<and> set (outstanding s) = {i. base s \<le> i \<and> i < next_seq_num s \<and> i \<in> dom (window s)}
      \<and> socket_out (timeout_handler s seq_num ch)
          = socket_out s @ map (\<lambda>i. (i, the (window s i)))
                             (filter (\<lambda>i. passes (loss_probability s) (ch i)) (outstanding s))
      \<and> stats (timeout_handler s seq_num ch) ''retransmissions''
          = stats s ''retransmissions''
            + int (length (filter (\<lambda>i. passes (loss_probability s) (ch i)) (outstanding s)))
      \<and> (\<forall>i \<in> set (outstanding s).
           \<exists>t. timers (timeout_handler s seq_num ch) i = Some t
             \<and> timers_created s \<le> t \<and> t < timers_created (timeout_handler s seq_num ch)
             \<and> (\<forall>t0. timers s i = Some t0 \<longrightarrow> t0 \<in> cancelled (timeout_handler s seq_num ch))
             \<and> (timers_allocated s \<longrightarrow> t \<notin> cancelled (timeout_handler s seq_num ch)))
      \<and> base (timeout_handler s seq_num ch) = base s
      \<and> next_seq_num (timeout_handler s seq_num ch) = next_seq_num s
      \<and> window (timeout_handler s seq_num ch) = window s)
   \<and> (\<not> running s \<longrightarrow> timeout_handler s seq_num ch = s)"
proof (cases "running s")
  case True
  note so = timeout_handler_socket [OF True, of seq_num ch]
  note st = timeout_handler_retransmissions [OF True, of seq_num ch]
  have fr: "base (timeout_handler s seq_num ch) = base s"
      "next_seq_num (timeout_handler s seq_num ch) = next_seq_num s"
      "window (timeout_handler s seq_num ch) = window s"
    by (simp_all add: timeout_handler_running [OF True] retransmit_from_frame log_event_sel)
  show ?thesis
    using timeout_handler_attempts [OF True, of seq_num ch] outstanding_set [of s] so st fr
      timeout_handler_timers [OF True, of _ seq_num ch] True
    by blast
next
  case False
  then show ?thesis by (simp add: timeout_handler_def)
qed

text \<open>
  With packets 0 and 1 in flight and no loss, a timeout for packet 0 retransmits 0 and 1
  and gives packet 1 a new timer in place of timer 1; after \<^verbatim>\<open>close\<close> the timer of packet
  1 firing changes nothing.
\<close>

theorem timeout_handler_effects_witness:
  "running two_in_flight
   \<and> timers_allocated two_in_flight
   \<and> send_attempts (appended (log_entries two_in_flight) (log_entries (timeout_handler two_in_flight 0 all_ok)))
       = [Some 0, Some 1]
   \<and> socket_out (timeout_handler two_in_flight 0 all_ok) = [(0, ''a''), (1, ''b''), (0, ''a''), (1, ''b'')]
   \<and> stats (timeout_handler two_in_flight 0 all_ok) ''retransmissions'' = 2
   \<and> (\<exists>t. timers (timeout_handler two_in_flight 0 all_ok) 1 = Some t \<and> 2 \<le> t
          \<and> 1 \<in> cancelled (timeout_handler two_in_flight 0 all_ok)
          \<and> t \<notin> cancelled (timeout_handler two_in_flight 0 all_ok))
   \<and> \<not> running closed_in_flight
   \<and> timeout_handler closed_in_flight 1 all_ok = closed_in_flight"
proof -
  have r: "running two_in_flight" by (simp add: two_in_flight_eq)
  have a: "timers_allocated two_in_flight" by (simp add: two_in_flight_eq timers_allocated_def)
  have f: "loss_probability two_in_flight = 0" "socket_out two_in_flight = [(0, ''a''), (1, ''b'')]"
    "stats two_in_flight ''retransmissions'' = 0" "window two_in_flight = [0 \<mapsto> ''a'', 1 \<mapsto> ''b'']"
    "timers two_in_flight 1 = Some 1" "timers_created two_in_flight = 2"
    by (simp_all add: two_in_flight_eq)
  have n: "\<not> running closed_in_flight"
    by (simp add: closed_in_flight_def close_def)
  show ?thesis
    using timeout_handler_effects [of two_in_flight 0 all_ok] timeout_handler_effects [of closed_in_flight 1 all_ok] r a n
    by (auto simp add: outstanding_two_in_flight passes_ok f)
qed

text \<open>
  Claim C1 as stated fails when \<^verbatim>\<open>running\<close> is not set: after \<^verbatim>\<open>close\<close>, with packets 0 and 1
  in the window, the handler returns the state unchanged and attempts no transmission.
\<close>

theorem timeout_when_not_running_counterexample:
  "reachable 3 0 closed_in_flight
   \<and> dom (window closed_in_flight) \<noteq> {}
   \<and> outstanding closed_in_flight = [0, 1]
   \<and> timeout_handler closed_in_flight 0 all_ok = closed_in_flight
   \<and> send_attempts (appended (log_entries closed_in_flight)
        (log_entries (timeout_handler closed_in_flight 0 all_ok))) = []"
proof -
  have "reachable 3 0 closed_in_flight"
    unfolding closed_in_flight_def by (rule reach_close) (rule reachable_two_in_flight)
  moreover have "timeout_handler closed_in_flight 0 all_ok = closed_in_flight"
    by (simp add: timeout_handler_def closed_in_flight_def close_def)
  moreover have "outstanding closed_in_flight = [0, 1]"
    by (simp add: closed_in_flight_def close_def two_in_flight_eq outstanding_def py_range_def upto_0_1)
  moreover have "dom (window closed_in_flight) \<noteq> {}"
    by (simp add: closed_in_flight_def close_def two_in_flight_eq)
  ultimately show ?thesis
    by (simp add: appended_def send_attempts_def)
qed

text \<open>
  Claim C2. Processing an ACK with \<open>ack_num \<ge> base\<close> removes the timer and the window
  entry of every sequence number in \<open>[base, ack_num]\<close>, cancels the removed timers, leaves
  the timers and entries of all other sequence numbers alone and sets \<open>base\<close> to
  \<open>ack_num + 1\<close>. Processing an ACK with \<open>ack_num < base\<close> changes nothing but the
  \<^verbatim>\<open>acks_received\<close> counter and the event log, which gets the \<^verbatim>\<open>ACK_RECV\<close> entry. Hence
  processing the same ACK a second time only counts and logs it, whatever the first
  processing did.
\<close>

theorem ack_releases_prefix_and_replay_is_idle:
  fixes s :: GBNClient and ack_num :: int
  defines "s' \<equiv> receive_ack s ack_num"
  shows "(base s \<le> ack_num \<longrightarrow>
            (\<forall>i. base s \<le> i \<and> i \<le> ack_num \<longrightarrow>
                 timers s' i = None \<and> window s' i = None
                 \<and> (\<forall>t. timers s i = Some t \<longrightarrow> t \<in> cancelled s'))
          \<and> (\<forall>i. \<not> (base s \<le> i \<and> i \<le> ack_num) \<longrightarrow>
                 timers s' i = timers s i \<and> window s' i = window s i)
          \<and> base s' = ack_num + 1)
       \<and> (ack_num < base s \<longrightarrow>
            s' = s\<lparr>stats := incr (stats s) ''acks_received'',
                   log_entries := log_entries s @ [(''ACK_RECV'', Some ack_num, ''ACK ricevuto'')]\<rparr>)
       \<and> stats s' = incr (stats s) ''acks_received''
       \<and> receive_ack s' ack_num
            = s'\<lparr>stats := incr (stats s') ''acks_received'',
                 log_entries := log_entries s' @ [(''ACK_RECV'', Some ack_num, ''ACK ricevuto'')]\<rparr>"
proof -
  have fresh: "base s \<le> ack_num \<longrightarrow>
            (\<forall>i. base s \<le> i \<and> i \<le> ack_num \<longrightarrow>
                 timers s' i = None \<and> window s' i = None
                 \<and> (\<forall>t. timers s i = Some t \<longrightarrow> t \<in> cancelled s'))
          \<and> (\<forall>i. \<not> (base s \<le> i \<and> i \<le> ack_num) \<longrightarrow>
                 timers s' i = timers s i \<and> window s' i = window s i)
          \<and> base s' = ack_num + 1"
    unfolding s'_def by (auto simp add: receive_ack_fresh receive_ack_frame)
  have stale: "ack_num < base s \<longrightarrow>
            s' = s\<lparr>stats := incr (stats s) ''acks_received'',
                   log_entries := log_entries s @ [(''ACK_RECV'', Some ack_num, ''ACK ricevuto'')]\<rparr>"
    unfolding s'_def by (simp add: receive_ack_stale)
  have "ack_num < base s'"
    unfolding s'_def by (simp add: receive_ack_frame)
  then have replay: "receive_ack s' ack_num
            = s'\<lparr>stats := incr (stats s') ''acks_received'',
                 log_entries := log_entries s' @ [(''ACK_RECV'', Some ack_num, ''ACK ricevuto'')]\<rparr>"
    by (rule receive_ack_stale)
  have "stats s' = incr (stats s) ''acks_received''"
    unfolding s'_def by (simp add: receive_ack_frame)
  with fresh stale replay show ?thesis by blast
qed

text \<open>
  With packets 0 and 1 in flight the ACK for 0 releases packet 0 and keeps packet 1; the
  same ACK again only counts.
\<close>

theorem ack_releases_prefix_and_replay_is_idle_witness:
  "base two_in_flight \<le> 0
   \<and> timers (receive_ack two_in_flight 0) 0 = None
   \<and> window (receive_ack two_in_flight 0) 0 = None
   \<and> timers two_in_flight 0 = Some 0 \<and> 0 \<in> cancelled (receive_ack two_in_flight 0)
   \<and> window (receive_ack two_in_flight 0) 1 = Some ''b''
   \<and> base (receive_ack two_in_flight 0) = 1
   \<and> 0 < base first_acked
   \<and> receive_ack first_acked 0
       = first_acked\<lparr>stats := incr (stats first_acked) ''acks_received'',
                      log_entries := log_entries first_acked @ [(''ACK_RECV'', Some 0, ''ACK ricevuto'')]\<rparr>"
proof -
  have f: "base two_in_flight = 0" "timers two_in_flight 0 = Some 0" "window two_in_flight 1 = Some ''b''"
    by (simp_all add: two_in_flight_eq)
  show ?thesis
    using ack_releases_prefix_and_replay_is_idle [of two_in_flight 0] ack_releases_prefix_and_replay_is_idle [of first_acked 0] f
    by (auto simp add: first_acked_fields)
qed

text \<open>
  Claim C3, as amended. A timer that fires for a sequence number that is not in the window
  changes nothing when the sender is not running; when it is running and no sequence number
  of \<open>[base, next_seq_num)\<close> is in the window, it only appends the \<^verbatim>\<open>TIMEOUT\<close> entry to the
  event log; when other sequence numbers are outstanding, it attempts to retransmit every
  one of them, as any timeout does (the sequence number that fired is not among them).
\<close>

theorem stale_timeout_behaviour:
  assumes "seq_num \<notin> dom (window s)"
  shows "(\<not> running s \<longrightarrow> timeout_handler s seq_num ch = s)
       \<and> (running s \<and> outstanding s = [] \<longrightarrow>
            timeout_handler s seq_num ch
              = s\<lparr>log_entries := log_entries s
                     @ [(''TIMEOUT'', Some seq_num, ''Timeout scaduto - Avvio Go-Back-N'')]\<rparr>)
       \<and> (running s \<and> outstanding s \<noteq> [] \<longrightarrow>
            send_attempts (appended (log_entries s) (log_entries (timeout_handler s seq_num ch)))
              = map Some (outstanding s)
            \<and> seq_num \<notin> set (outstanding s))"
proof -
  have "seq_num \<notin> set (outstanding s)"
    using assms by (simp add: outstanding_def)
  then show ?thesis
    using timeout_handler_idle [of s seq_num ch] timeout_handler_attempts [of s seq_num ch]
    by (simp add: timeout_handler_def)
qed

text \<open>
  The three cases: after \<^verbatim>\<open>close\<close>; at the start of a session with nothing sent; and the
  timer of the acknowledged packet 0 while packet 1 is outstanding.
\<close>

theorem stale_timeout_behaviour_witness:
  "5 \<notin> dom (window closed_in_flight) \<and> \<not> running closed_in_flight
   \<and> timeout_handler closed_in_flight 5 all_ok = closed_in_flight
   \<and> 0 \<notin> dom (window (send_data_begin (client_init 3 0)))
   \<and> running (send_data_begin (client_init 3 0))
   \<and> outstanding (send_data_begin (client_init 3 0)) = []
   \<and> log_entries (timeout_handler (send_data_begin (client_init 3 0)) 0 all_ok)
       = [(''SESSION_START'', None, ''Inizio trasmissione''),
          (''TIMEOUT'', Some 0, ''Timeout scaduto - Avvio Go-Back-N'')]
   \<and> 0 \<notin> dom (window first_acked) \<and> running first_acked \<and> outstanding first_acked \<noteq> []
   \<and> send_attempts (appended (log_entries first_acked) (log_entries (timeout_handler first_acked 0 all_ok)))
       = [Some 1]"
proof -
  have a: "5 \<notin> dom (window closed_in_flight)" "\<not> running closed_in_flight"
    by (simp_all add: closed_in_flight_def close_def two_in_flight_eq)
  have b: "0 \<notin> dom (window (send_data_begin (client_init 3 0)))"
    "running (send_data_begin (client_init 3 0))"
    "outstanding (send_data_begin (client_init 3 0)) = []"
    by (simp_all add: begin_eq outstanding_def py_range_def)
  have c: "0 \<notin> dom (window first_acked)" "running first_acked" "outstanding first_acked \<noteq> []"
    by (simp_all add: first_acked_fields outstanding_first_acked)
  show ?thesis
    using stale_timeout_behaviour [OF a(1), of all_ok] stale_timeout_behaviour [OF b(1), of all_ok] stale_timeout_behaviour [OF c(1), of all_ok] a b c
    by (simp add: outstanding_first_acked begin_eq)
qed

text \<open>
  Claim C3 as stated fails when other packets are outstanding: after the ACK for packet 0,
  with packet 1 still in the window, the timer of packet 0 firing retransmits packet 1.
\<close>

theorem stale_timeout_retransmits_counterexample:
  "reachable 3 0 first_acked
   \<and> running first_acked
   \<and> 0 \<notin> dom (window first_acked)
   \<and> socket_out (timeout_handler first_acked 0 all_ok) = socket_out first_acked @ [(1, ''b'')]
   \<and> stats (timeout_handler first_acked 0 all_ok) ''retransmissions''
       = stats first_acked ''retransmissions'' + 1
   \<and> timeout_handler first_acked 0 all_ok \<noteq> first_acked"
proof -
  have r: "running first_acked" by (rule first_acked_fields)
  have so: "socket_out (timeout_handler first_acked 0 all_ok) = socket_out first_acked @ [(1, ''b'')]"
    unfolding timeout_handler_socket [OF r] outstanding_first_acked
    by (simp add: passes_ok first_acked_fields)
  have st: "stats (timeout_handler first_acked 0 all_ok) ''retransmissions''
       = stats first_acked ''retransmissions'' + 1"
    unfolding timeout_handler_retransmissions [OF r] outstanding_first_acked
    by (simp add: passes_ok first_acked_fields)
  from so have "timeout_handler first_acked 0 all_ok \<noteq> first_acked" by auto
  with so st r reachable_first_acked show ?thesis
    by (simp add: first_acked_fields)
qed

text \<open>
  Claim C4, as amended. For a non-negative window size, \<open>next_seq_num - base \<le> window_size\<close>
  holds in every reachable sender state, whatever ACKs have been processed. In every state
  reachable by steps in which each processed ACK acknowledges an assigned sequence number
  (\<open>ack_num < next_seq_num\<close>), which are reachable states, also
  \<open>0 \<le> next_seq_num - base\<close> and the window holds exactly \<open>next_seq_num - base\<close>
  entries.
\<close>

theorem window_bounds:
  "(reachable ws p s \<and> 0 \<le> ws \<longrightarrow> next_seq_num s - base s \<le> window_size s)
   \<and> (reachable_sent ws p s \<longrightarrow>
        reachable ws p s
        \<and> 0 \<le> next_seq_num s - base s
        \<and> int (card (dom (window s))) = next_seq_num s - base s)"
proof -
  have "reachable ws p s \<and> 0 \<le> ws \<longrightarrow> next_seq_num s - base s \<le> window_size s"
    using reachable_flow_control [of ws p s] by simp
  moreover have "reachable_sent ws p s \<longrightarrow>
        reachable ws p s
        \<and> 0 \<le> next_seq_num s - base s
        \<and> int (card (dom (window s))) = next_seq_num s - base s"
    using reachable_sent_invariant [of ws p s] reachable_sent_reachable [of ws p s] by simp
  ultimately show ?thesis by blast
qed

text \<open>
  With window size 3 and packets 0 and 1 sent: after the ACK for 4, and after the ACK for 0.
\<close>

theorem window_bounds_witness:
  "reachable 3 0 ack_beyond \<and> (0::int) \<le> 3
   \<and> next_seq_num ack_beyond - base ack_beyond = - 3
   \<and> window_size ack_beyond = 3
   \<and> next_seq_num ack_beyond - base ack_beyond \<le> window_size ack_beyond
   \<and> reachable_sent 3 0 first_acked
   \<and> reachable 3 0 first_acked
   \<and> next_seq_num first_acked - base first_acked = 1
   \<and> window_size first_acked = 3
   \<and> int (card (dom (window first_acked))) = 1"
  using window_bounds [of 3 0 ack_beyond] window_bounds [of 3 0 first_acked]
    reachable_sent_first_acked reachable_ack_beyond
  by (simp add: first_acked_fields ack_beyond_fields)

text \<open>
  Claim C4 as stated fails for an ACK beyond the assigned sequence numbers: with packets 0
  and 1 sent, the ACK for 4 moves \<open>base\<close> to 5 while \<open>next_seq_num\<close> stays at 2 and the
  window becomes empty, so the lower bound and the count of entries fail.
\<close>

theorem window_invariant_counterexample:
  "reachable 3 0 ack_beyond
   \<and> next_seq_num ack_beyond - base ack_beyond = - 3
   \<and> \<not> 0 \<le> next_seq_num ack_beyond - base ack_beyond
   \<and> int (card (dom (window ack_beyond))) \<noteq> next_seq_num ack_beyond - base ack_beyond"
  using reachable_ack_beyond by (simp add: ack_beyond_fields)

text \<open>
  Claim C9. Processing an ACK with \<open>ack_num \<ge> base\<close> sets \<open>base\<close> to \<open>ack_num + 1\<close>
  and never changes \<open>next_seq_num\<close>, so an ACK that is also at or beyond
  \<open>next_seq_num\<close> moves \<open>base\<close> strictly past it. From a state with
  \<open>base \<le> next_seq_num\<close> the relation survives the ACK exactly when
  \<open>ack_num < next_seq_num\<close>.
\<close>

theorem ack_has_no_upper_bound:
  fixes s :: GBNClient and ack_num :: int
  defines "s' \<equiv> receive_ack s ack_num"
  shows "(base s \<le> ack_num \<longrightarrow> base s' = ack_num + 1)
       \<and> next_seq_num s' = next_seq_num s
       \<and> (base s \<le> ack_num \<and> next_seq_num s \<le> ack_num \<longrightarrow> next_seq_num s' < base s')
       \<and> (base s \<le> next_seq_num s \<longrightarrow> (base s' \<le> next_seq_num s' \<longleftrightarrow> ack_num < next_seq_num s))"
  unfolding s'_def by (auto simp add: receive_ack_frame)

text \<open>
  With packets 0 and 1 sent, the ACK for 4 and the ACK for 1.
\<close>

theorem ack_has_no_upper_bound_witness:
  "base two_in_flight \<le> 4
   \<and> next_seq_num two_in_flight \<le> 4
   \<and> base ack_beyond = 5 \<and> next_seq_num ack_beyond = 2
   \<and> next_seq_num ack_beyond < base ack_beyond
   \<and> base two_in_flight \<le> next_seq_num two_in_flight
   \<and> 1 < next_seq_num two_in_flight
   \<and> base (receive_ack two_in_flight 1) \<le> next_seq_num (receive_ack two_in_flight 1)"
proof -
  have f: "base two_in_flight = 0" "next_seq_num two_in_flight = 2"
    by (simp_all add: two_in_flight_eq)
  show ?thesis
    using ack_has_no_upper_bound [of two_in_flight 4] ack_has_no_upper_bound [of two_in_flight 1] f
    by (simp add: ack_beyond_def)
qed

text \<open>
  Claim C10. A call of \<^verbatim>\<open>send_packet\<close> that passes the loss simulation and the socket adds
  1 to \<^verbatim>\<open>packets_sent\<close>, whether it is a retransmission or not, and adds 1 to
  \<^verbatim>\<open>retransmissions\<close> only if it is one; a call that does not pass changes neither counter.
  Hence \<open>retransmissions \<le> packets_sent\<close> in every reachable sender state, and the
  denominator of the protocol efficiency, \<^verbatim>\<open>packets_sent\<close>, includes the retransmissions.
\<close>

theorem packets_sent_counts_retransmissions:
  "(passes (loss_probability s) c \<longrightarrow>
      stats (send_packet s seq_num data is_retransmission c) ''packets_sent'' = stats s ''packets_sent'' + 1
      \<and> stats (send_packet s seq_num data is_retransmission c) ''retransmissions''
          = stats s ''retransmissions'' + (if is_retransmission then 1 else 0)
      \<and> socket_out (send_packet s seq_num data is_retransmission c) = socket_out s @ [(seq_num, data)])
   \<and> (\<not> passes (loss_probability s) c \<longrightarrow>
      stats (send_packet s seq_num data is_retransmission c) ''packets_sent'' = stats s ''packets_sent''
      \<and> stats (send_packet s seq_num data is_retransmission c) ''retransmissions'' = stats s ''retransmissions''
      \<and> socket_out (send_packet s seq_num data is_retransmission c) = socket_out s)
   \<and> (reachable ws p s \<longrightarrow> stats s ''retransmissions'' \<le> stats s ''packets_sent'')
   \<and> protocol_efficiency (calculate_advanced_metrics s elapsed n)
        = (if stats s ''packets_sent'' > 0
           then real_of_int (stats s ''acks_received'') / real_of_int (stats s ''packets_sent'') * 100
           else 0)"
proof -
  have "protocol_efficiency (calculate_advanced_metrics s elapsed n)
        = (if stats s ''packets_sent'' > 0
           then real_of_int (stats s ''acks_received'') / real_of_int (stats s ''packets_sent'') * 100
           else 0)"
    by (simp add: calculate_advanced_metrics_def Let_def)
  then show ?thesis
    using reachable_retransmissions [of ws p s]
    by (simp add: send_packet_stats send_packet_socket incr_apply passes_def)
qed

text \<open>
  After two original sends: a retransmission and an original send that pass, and a
  retransmission on which \<^verbatim>\<open>sendto\<close> raises.
\<close>

theorem packets_sent_counts_retransmissions_witness:
  "passes (loss_probability two_in_flight) chance_ok
   \<and> stats (send_packet two_in_flight 0 ''a'' True chance_ok) ''packets_sent'' = 3
   \<and> stats (send_packet two_in_flight 0 ''a'' True chance_ok) ''retransmissions'' = 1
   \<and> stats (send_packet two_in_flight 2 ''c'' False chance_ok) ''packets_sent'' = 3
   \<and> stats (send_packet two_in_flight 2 ''c'' False chance_ok) ''retransmissions'' = 0
   \<and> \<not> passes (loss_probability two_in_flight) chance_fail
   \<and> stats (send_packet two_in_flight 0 ''a'' True chance_fail) ''packets_sent'' = 2
   \<and> reachable 3 0 two_in_flight
   \<and> stats two_in_flight ''retransmissions'' \<le> stats two_in_flight ''packets_sent''"
  using packets_sent_counts_retransmissions [of two_in_flight chance_ok 0 "''a''" True 3 0]
    packets_sent_counts_retransmissions [of two_in_flight chance_ok 2 "''c''" False 3 0]
    packets_sent_counts_retransmissions [of two_in_flight chance_fail 0 "''a''" True 3 0]
    reachable_two_in_flight
  by (simp add: two_in_flight_stats passes_def chance_ok_def chance_fail_def)


section \<open>Claims about the metrics\<close>

text \<open>
  Claim C8, as amended. The metrics are functions of the counters, the elapsed time and
  the number of messages alone. \<^verbatim>\<open>calculate_advanced_metrics\<close> gives the loss rate, the
  retransmission rate and the protocol efficiency as percentages, the retransmission rate
  per message and not per packet sent: loss rate \<open>lost / (sent + lost) * 100\<close>,
  retransmission rate \<open>retransmissions / messages * 100\<close>, efficiency
  \<open>acks_received / packets_sent * 100\<close>, throughput \<open>messages / elapsed\<close>, goodput
  \<open>acks_received / elapsed\<close>; each is 0 when its denominator is not positive.
  \<^verbatim>\<open>print_statistics\<close> computes \<open>lost / (sent + lost) * 100\<close> and
  \<open>retransmissions / sent * 100\<close>, and only when \<^verbatim>\<open>packets_sent\<close> is positive.
\<close>

theorem metrics_as_computed:
  "effective_loss_rate (calculate_advanced_metrics s elapsed n)
     = (if stats s ''packets_sent'' + stats s ''packets_lost'' > 0
        then real_of_int (stats s ''packets_lost'')
               / real_of_int (stats s ''packets_sent'' + stats s ''packets_lost'') * 100
        else 0)
   \<and> retransmission_rate (calculate_advanced_metrics s elapsed n)
     = (if n > 0 then real_of_int (stats s ''retransmissions'') / real_of_int n * 100 else 0)
   \<and> protocol_efficiency (calculate_advanced_metrics s elapsed n)
     = (if stats s ''packets_sent'' > 0
        then real_of_int (stats s ''acks_received'') / real_of_int (stats s ''packets_sent'') * 100
        else 0)
   \<and> throughput (calculate_advanced_metrics s elapsed n)
     = (if elapsed > 0 then real_of_int n / elapsed else 0)
   \<and> goodput (calculate_advanced_metrics s elapsed n)
     = (if elapsed > 0 then real_of_int (stats s ''acks_received'') / elapsed else 0)
   \<and> print_statistics_rates s
     = (if stats s ''packets_sent'' > 0
        then Some (real_of_int (stats s ''packets_lost'')
                     / real_of_int (stats s ''packets_sent'' + stats s ''packets_lost'') * 100,
                   real_of_int (stats s ''retransmissions'')
                     / real_of_int (stats s ''packets_sent'') * 100)
        else None)"
  by (simp add: calculate_advanced_metrics_def print_statistics_rates_def Let_def)

text \<open>
  With 4 packets sent, 2 of them retransmissions, 1 ACK, 2 messages and 1 second elapsed;
  and with no time elapsed.
\<close>

theorem metrics_as_computed_witness:
  "effective_loss_rate (calculate_advanced_metrics retransmitted_acked 1 2) = 0
   \<and> retransmission_rate (calculate_advanced_metrics retransmitted_acked 1 2) = 100
   \<and> protocol_efficiency (calculate_advanced_metrics retransmitted_acked 1 2) = 25
   \<and> throughput (calculate_advanced_metrics retransmitted_acked 1 2) = 2
   \<and> goodput (calculate_advanced_metrics retransmitted_acked 1 2) = 1
   \<and> print_statistics_rates retransmitted_acked = Some (0, 50)
   \<and> throughput (calculate_advanced_metrics retransmitted_acked 0 2) = 0"
  using metrics_as_computed [of retransmitted_acked 1 2] metrics_as_computed [of retransmitted_acked 0 2]
  by (simp add: retransmitted_acked_stats)

text \<open>
  Claim C8 as stated fails: with 4 packets sent, 2 of them retransmissions, 1 ACK and 2
  messages the retransmission rate is 100 and not 1/2, the protocol efficiency 25 and not
  1/4; and with no packet sent \<^verbatim>\<open>print_statistics\<close> computes no rate at all.
\<close>

theorem metrics_counterexample:
  "retransmission_rate (calculate_advanced_metrics retransmitted_acked 1 2) = 100
   \<and> real_of_int (stats retransmitted_acked ''retransmissions'')
       / real_of_int (stats retransmitted_acked ''packets_sent'') = 1 / 2
   \<and> protocol_efficiency (calculate_advanced_metrics retransmitted_acked 1 2) = 25
   \<and> real_of_int (stats retransmitted_acked ''acks_received'')
       / real_of_int (stats retransmitted_acked ''packets_sent'') = 1 / 4
   \<and> stats (client_init 3 0) ''packets_sent'' = 0
   \<and> print_statistics_rates (client_init 3 0) = None"
  by (simp add: calculate_advanced_metrics_def print_statistics_rates_def Let_def
        retransmitted_acked_stats client_init_def)

end
